theory Spec2Isabelle
  imports Complex_Main "HOL-Library.AList"
begin

section \<open>Keyword metadata store and geometry utilities of safe/storage/utilities.py\<close>

text \<open>
  The module is Python 2. Byte strings are \<open>string\<close>; unicode strings are not
  modelled. A dict is an association list with distinct keys whose order stands for the
  iteration order of the dict, and an item assignment \<open>d[k] = v\<close> is
  \<open>AList.update k v d\<close>: Python 2 leaves the iteration order open, here a dict lists
  its keys in the order of their first assignment. The file system is a map from file
  names to file contents; I/O errors of the operating system are not modelled, and what
  is handed to \<open>handle.write\<close> is taken to reach the file.
\<close>

subsection \<open>Python values, errors, strings\<close>

text \<open>
  Keys and values of a keywords dict: \<open>None\<close>, a byte string, or any other object,
  which is represented by what \<open>str()\<close> does on it (it returns a string, or raises).
\<close>

datatype pyval = PNone | PStr string | PObj "string option"

type_synonym pydict = "(pyval \<times> pyval) list"

type_synonym fs = "string \<rightharpoonup> string"

datatype error =
    UnknownExtension string
  | KeyNotString pyval
  | KeyContainsColon string
  | ValueNotConvertible pyval pyval
  | TooFewBoxes
  | BadBox "real list"
  | WestNotLessThanEast "real list"
  | SouthNotLessThanNorth "real list"
  | ZeroDivisionError

abbreviation NL :: char where "NL \<equiv> CHR 0x0A"

text \<open>\<open>str.isspace\<close> of a byte in the C locale: space, tab, LF, VT, FF, CR.\<close>

definition is_space :: "char \<Rightarrow> bool" where
  "is_space c \<longleftrightarrow> c \<in> set [CHR '' '', CHR 0x09, CHR 0x0A, CHR 0x0B, CHR 0x0C, CHR 0x0D]"

definition rstrip :: "string \<Rightarrow> string" where
  "rstrip s = rev (dropWhile is_space (rev s))"

definition strip :: "string \<Rightarrow> string" where
  "strip s = dropWhile is_space (rstrip s)"

text \<open>\<open>str(v)\<close>: \<open>None\<close> when the conversion raises.\<close>

fun py_str :: "pyval \<Rightarrow> string option" where
  "py_str PNone = Some ''None''"
| "py_str (PStr s) = Some s"
| "py_str (PObj r) = r"

subsection \<open>os.path.splitext (posixpath, Python 2.7)\<close>

text \<open>\<open>p.rfind(c)\<close>: the index of the last occurrence of \<open>c\<close>, or \<open>-1\<close>.\<close>

fun rfind :: "string \<Rightarrow> char \<Rightarrow> int" where
  "rfind [] c = -1"
| "rfind (x # xs) c =
     (let r = rfind xs c in if r \<ge> 0 then r + 1 else if x = c then 0 else -1)"

text \<open>
  The extension starts at the last dot, provided that dot comes after the last slash and
  some character between the slash and the dot is not a dot (leading dots of the base
  name are skipped).
\<close>

definition splitext :: "string \<Rightarrow> string \<times> string" where
  "splitext p =
     (let sepIndex = rfind p (CHR ''/'');
          dotIndex = rfind p (CHR ''.'')
      in if dotIndex > sepIndex \<and>
            list_ex (\<lambda>c. c \<noteq> CHR ''.'')
              (take (nat (dotIndex - (sepIndex + 1))) (drop (nat (sepIndex + 1)) p))
         then (take (nat dotIndex) p, drop (nat dotIndex) p)
         else (p, []))"

subsection \<open>\_keywords\_to\_string\<close>

text \<open>
  The loop over \<open>keywords.items()\<close>, with \<open>result\<close> as accumulator. A key that is
  not a string, a key containing a colon and a value that \<open>str\<close> rejects each raise.
\<close>

fun keywords_loop :: "pydict \<Rightarrow> string \<Rightarrow> error + string" where
  "keywords_loop [] result = Inr result"
| "keywords_loop ((k, v) # rest) result =
     (case k of
        PStr key \<Rightarrow>
          if CHR '':'' \<in> set key then Inl (KeyContainsColon key)
          else (case py_str v of
                  None \<Rightarrow> Inl (ValueNotConvertible k v)
                | Some val \<Rightarrow> keywords_loop rest (result @ key @ '': '' @ val @ [NL]))
      | _ \<Rightarrow> Inl (KeyNotString k))"

definition keywords_to_string :: "pydict \<Rightarrow> string option \<Rightarrow> error + string" where
  "keywords_to_string kw sublayer =
     keywords_loop kw
       (case sublayer of None \<Rightarrow> [] | Some s \<Rightarrow> ''['' @ s @ '']'' @ [NL])"

subsection \<open>read\_keywords\<close>

text \<open>\<open>fid.readlines()\<close>: the content cut after every newline, newlines kept.\<close>

fun readlines :: "string \<Rightarrow> string list" where
  "readlines [] = []"
| "readlines (c # cs) =
     (if c = NL then [c] # readlines cs
      else (case readlines cs of [] \<Rightarrow> [[c]] | l # ls \<Rightarrow> (c # l) # ls))"

text \<open>
  \<open>re.search(r'^\[.*]$', text, re.M | re.I)\<close> on a text without newline (a line of
  \<open>readlines\<close>, right-stripped): it starts with an opening and ends with a closing bracket.
\<close>

definition block_flag :: "string \<Rightarrow> bool" where
  "block_flag text \<longleftrightarrow> 2 \<le> length text \<and> hd text = CHR ''['' \<and> last text = CHR '']''"

record parse_state =
  blocks :: "(string \<times> pydict) list"
  keywords' :: pydict
  current_block :: "string option"
  first_keywords :: "pydict option"

text \<open>The keywords gathered so far are stored under the current block, if there is one.\<close>

definition commit_block :: "parse_state \<Rightarrow> (string \<times> pydict) list" where
  "commit_block st =
     (case current_block st of
        Some name \<Rightarrow>
          if keywords' st \<noteq> [] then AList.update name (keywords' st) (blocks st)
          else blocks st
      | None \<Rightarrow> blocks st)"

text \<open>A data line: a bare key, or key and value cut at the first colon.\<close>

definition parse_entry :: "string \<Rightarrow> pyval \<times> pyval" where
  "parse_entry text =
     (if CHR '':'' \<notin> set text then (PStr (strip text), PNone)
      else (PStr (takeWhile (\<lambda>c. c \<noteq> CHR '':'') text),
            PStr (strip (tl (dropWhile (\<lambda>c. c \<noteq> CHR '':'') text)))))"

text \<open>One iteration of the loop over the lines.\<close>

definition read_line :: "string \<Rightarrow> parse_state \<Rightarrow> parse_state" where
  "read_line line st =
     (let text = rstrip line in
      if text = [] then st
      else if block_flag text then
        st\<lparr>blocks := commit_block st,
           first_keywords :=
             (if first_keywords st = None \<and> keywords' st \<noteq> [] then Some (keywords' st)
              else first_keywords st),
           current_block := Some (butlast (tl text)),
           keywords' := []\<rparr>
      else
        (case parse_entry text of
           (key, val) \<Rightarrow> st\<lparr>keywords' := AList.update key val (keywords' st)\<rparr>))"

definition init_state :: parse_state where
  "init_state = \<lparr>blocks = [], keywords' = [], current_block = None, first_keywords = None\<rparr>"

text \<open>After the loop: the unfinished block is stored, the fallback is settled.\<close>

definition finish :: "parse_state \<Rightarrow> parse_state" where
  "finish st =
     st\<lparr>blocks := commit_block st,
        first_keywords :=
          (case first_keywords st of None \<Rightarrow> Some (keywords' st) | Some fk \<Rightarrow> Some fk)\<rparr>"

definition parse_file :: "string \<Rightarrow> parse_state" where
  "parse_file content = finish (fold read_line (readlines content) init_state)"

text \<open>
  What \<open>read_keywords\<close> returns: the block map, one keywords dict, or \<open>None\<close> (a
  sublayer was asked for and is not in the file).
\<close>

datatype read_result = Blocks "(string \<times> pydict) list" | Keywords pydict | NoResult

definition read_keywords ::
  "string \<Rightarrow> string option \<Rightarrow> bool \<Rightarrow> fs \<Rightarrow> error + read_result" where
  "read_keywords filename sublayer all_blocks files =
     (if snd (splitext filename) \<noteq> ''.keywords'' then Inl (UnknownExtension filename)
      else
        (case files filename of
           None \<Rightarrow> Inr (if all_blocks then Blocks [] else Keywords [])
         | Some content \<Rightarrow>
             (let st = parse_file content in
              if all_blocks then Inr (Blocks (blocks st))
              else
                (case sublayer of
                   Some name \<Rightarrow>
                     (case map_of (blocks st) name of
                        Some kw \<Rightarrow> Inr (Keywords kw)
                      | None \<Rightarrow> Inr NoResult)
                 | None \<Rightarrow>
                     (case first_keywords st of
                        Some kw \<Rightarrow> Inr (Keywords kw)
                      | None \<Rightarrow> Inr NoResult)))))"

subsection \<open>write\_keywords\<close>

text \<open>
  The loop over the blocks of a multilayer file; \<open>out\<close> is what has been handed to
  \<open>handle.write\<close> so far. When a block is rejected the loop stops, and what was written
  before stays written.
\<close>

fun write_blocks :: "(string \<times> pydict) list \<Rightarrow> string \<Rightarrow> (error + unit) \<times> string" where
  "write_blocks [] out = (Inr (), out)"
| "write_blocks ((key, val) # rest) out =
     (case keywords_to_string val (Some key) of
        Inl e \<Rightarrow> (Inl e, out)
      | Inr s \<Rightarrow> write_blocks rest (out @ s @ [NL]))"

text \<open>
  The result is paired with the file system after the call. The file is opened for
  writing, which empties it, after the existing blocks were read and before the new
  keywords are turned into text. Every value of a block map is a dict, so
  \<open>multilayer_flag\<close> holds as soon as the block map has a first entry.
\<close>

definition write_keywords ::
  "pydict \<Rightarrow> string \<Rightarrow> string option \<Rightarrow> fs \<Rightarrow> (error + unit) \<times> fs" where
  "write_keywords kw filename sublayer files =
     (if snd (splitext filename) \<noteq> ''.keywords'' then (Inl (UnknownExtension filename), files)
      else
        (case read_keywords filename None True files of
           Inl e \<Rightarrow> (Inl e, files)
         | Inr r \<Rightarrow>
             (let existing_keywords = (case r of Blocks bs \<Rightarrow> bs | _ \<Rightarrow> []);
                  first_value = (case existing_keywords of [] \<Rightarrow> None | (k, v) # _ \<Rightarrow> Some v);
                  multilayer_flag = (first_value \<noteq> None);
                  opened = files(filename \<mapsto> [])
              in
                if multilayer_flag then
                  (case sublayer of
                     Some name \<Rightarrow>
                       if name \<noteq> [] then
                         (case write_blocks (AList.update name kw existing_keywords) [] of
                            (res, out) \<Rightarrow> (res, files(filename \<mapsto> out)))
                       else
                         (case keywords_to_string kw None of
                            Inl e \<Rightarrow> (Inl e, opened)
                          | Inr s \<Rightarrow> (Inr (), files(filename \<mapsto> s)))
                   | None \<Rightarrow>
                       (case keywords_to_string kw None of
                          Inl e \<Rightarrow> (Inl e, opened)
                        | Inr s \<Rightarrow> (Inr (), files(filename \<mapsto> s))))
                else
                  (case keywords_to_string kw sublayer of
                     Inl e \<Rightarrow> (Inl e, opened)
                   | Inr s \<Rightarrow> (Inr (), files(filename \<mapsto> s))))))"

subsection \<open>bbox\_intersection\<close>

text \<open>
  A bounding box is a list \<open>[W, S, E, N]\<close> of numbers. Comparison, \<open>max\<close> and
  \<open>min\<close> of Python numbers are exact, so the coordinates are reals. The loop over
  \<open>args\<close> carries \<open>result\<close>.
\<close>

fun bbox_loop :: "real list list \<Rightarrow> real list \<Rightarrow> error + real list" where
  "bbox_loop [] result = Inr result"
| "bbox_loop (box # args) result =
     (if length box \<noteq> 4 then Inl (BadBox box)
      else if \<not> box ! 0 < box ! 2 then Inl (WestNotLessThanEast box)
      else if \<not> box ! 1 < box ! 3 then Inl (SouthNotLessThanNorth box)
      else bbox_loop args
             (result[0 := max (result ! 0) (box ! 0),
                     1 := max (result ! 1) (box ! 1),
                     2 := min (result ! 2) (box ! 2),
                     3 := min (result ! 3) (box ! 3)]))"

definition bbox_intersection :: "real list list \<Rightarrow> error + real list option" where
  "bbox_intersection args =
     (if \<not> length args > 1 then Inl TooFewBoxes
      else
        (case bbox_loop args [-180, -90, 180, 90] of
           Inl e \<Rightarrow> Inl e
         | Inr result \<Rightarrow>
             if result ! 0 < result ! 2 \<and> result ! 1 < result ! 3 then Inr (Some result)
             else Inr None))"

subsection \<open>points\_between\_points\<close>

text \<open>
  Coordinates and \<open>delta\<close> are modelled as exact reals: the rounding of floating point
  numbers is not represented, so the definition gives the result of the code where every
  intermediate value is computed without rounding, as for a segment of length zero or for
  small integers whose square root and quotient are integers. A numpy division by zero
  gives \<open>nan\<close> and a warning, not an exception; a point whose coordinates are not
  numbers for that reason is \<open>None\<close>.
\<close>

type_synonym point = "real \<times> real"

text \<open>\<open>int(x)\<close> of a float: truncation towards zero.\<close>

definition py_int :: "real \<Rightarrow> int" where
  "py_int x = (if x \<ge> 0 then \<lfloor>x\<rfloor> else \<lceil>x\<rceil>)"

text \<open>
  \<open>L / delta\<close> is a division of Python floats and raises for \<open>delta = 0\<close>;
  the division by \<open>L\<close> is numpy's. \<open>range(pieces)\<close> is empty for negative \<open>pieces\<close>.
\<close>

definition points_between_points :: "point \<Rightarrow> point \<Rightarrow> real \<Rightarrow> error + point option list" where
  "points_between_points point1 point2 delta =
     (case (point1, point2) of
        ((x0, y0), (x1, y1)) \<Rightarrow>
          (let L = sqrt ((x1 - x0)\<^sup>2 + (y1 - y0)\<^sup>2) in
           if delta = 0 then Inl ZeroDivisionError
           else
             (let pieces = py_int (L / delta);
                  uu = (if L = 0 then None else Some ((x1 - x0) / L, (y1 - y0) / L))
              in Inr (Some point1 #
                      map (\<lambda>nn. map_option
                                  (\<lambda>(ux, uy). (x0 + ux * (real nn + 1) * delta,
                                               y0 + uy * (real nn + 1) * delta)) uu)
                          [0..<nat pieces]))))"

section \<open>Auxiliary notions for the statements\<close>

text \<open>
  An entry that survives being written and read back: key and value are strings, the key
  has no colon and no newline, the value has no newline and no surrounding whitespace,
  and the line \<open>key: value\<close> does not look like a block header.
\<close>

fun plain_entry :: "pyval \<times> pyval \<Rightarrow> bool" where
  "plain_entry (PStr k, PStr v) \<longleftrightarrow>
     CHR '':'' \<notin> set k \<and> NL \<notin> set k \<and> NL \<notin> set v \<and> strip v = v \<and>
     \<not> (k \<noteq> [] \<and> hd k = CHR ''['' \<and> v \<noteq> [] \<and> last v = CHR '']'')"
| "plain_entry _ \<longleftrightarrow> False"

text \<open>The line that \<open>keywords_loop\<close> emits for an entry of strings.\<close>

fun entry_line :: "pyval \<times> pyval \<Rightarrow> string" where
  "entry_line (PStr key, PStr val) = key @ '': '' @ val @ [NL]"
| "entry_line _ = []"

text \<open>A complete line of a file: it ends with its only newline.\<close>

definition is_line :: "string \<Rightarrow> bool" where
  "is_line l \<longleftrightarrow> l \<noteq> [] \<and> last l = NL \<and> NL \<notin> set (butlast l)"

text \<open>
  The test of \<open>write_keywords\<close> for a multilayer file: reading all blocks gives at least
  one block.
\<close>

definition is_multilayer :: "string \<Rightarrow> fs \<Rightarrow> bool" where
  "is_multilayer filename files \<longleftrightarrow>
     (case read_keywords filename None True files of
        Inr (Blocks bs) \<Rightarrow> bs \<noteq> []
      | _ \<Rightarrow> False)"

text \<open>A file with the two sublayers \<open>x\<close> and \<open>y\<close>.\<close>

definition two_layers :: string where
  "two_layers = ''[x]'' @ [NL] @ ''a: 1'' @ [NL] @ [NL] @ ''[y]'' @ [NL] @ ''b: 2'' @ [NL] @ [NL]"

text \<open>
  The three kinds of lines the reader tells apart (a line that is neither a header nor a
  data line is blank), the name a header gives, the entry of a data line, and the dict a
  run of lines without header builds up.
\<close>

definition is_header :: "string \<Rightarrow> bool" where
  "is_header line \<longleftrightarrow> rstrip line \<noteq> [] \<and> block_flag (rstrip line)"

definition is_data :: "string \<Rightarrow> bool" where
  "is_data line \<longleftrightarrow> rstrip line \<noteq> [] \<and> \<not> block_flag (rstrip line)"

definition header_name :: "string \<Rightarrow> string" where
  "header_name line = butlast (tl (rstrip line))"

definition line_entry :: "string \<Rightarrow> pyval \<times> pyval" where
  "line_entry line = parse_entry (rstrip line)"

definition group_keywords :: "string list \<Rightarrow> pydict" where
  "group_keywords ls =
     fold (\<lambda>e kw. AList.update (fst e) (snd e) kw) (map line_entry (filter is_data ls)) []"

text \<open>A file with a keyword line before its only header.\<close>

definition orphan_file :: string where
  "orphan_file = ''a: 1'' @ [NL] @ ''[x]'' @ [NL] @ ''b: 2'' @ [NL]"

text \<open>A block in which the key \<open>a\<close> occurs on two lines.\<close>

definition twice_file :: string where
  "twice_file = ''[x]'' @ [NL] @ ''a: 1'' @ [NL] @ ''b: 2'' @ [NL] @ ''a: 3'' @ [NL]"

text \<open>The header line that \<open>keywords_to_string\<close> emits for a sublayer.\<close>

definition header_line :: "string \<Rightarrow> string" where
  "header_line name = ''['' @ name @ '']'' @ [NL]"

text \<open>A box that passes the checks of \<open>bbox_intersection\<close>.\<close>

definition good_box :: "real list \<Rightarrow> bool" where
  "good_box box \<longleftrightarrow> length box = 4 \<and> box ! 0 < box ! 2 \<and> box ! 1 < box ! 3"

text \<open>A file whose first block is empty, and a file without header.\<close>

definition empty_block_file :: string where
  "empty_block_file = ''[x]'' @ [NL] @ ''[y]'' @ [NL] @ ''b: 2'' @ [NL]"

definition plain_file :: string where
  "plain_file = ''a: 1'' @ [NL] @ ''b: 2'' @ [NL]"

text \<open>
  A file in which the block name \<open>x\<close> comes twice, and a dict, accepted by the writer,
  whose only value holds a newline followed by a header line.
\<close>

definition repeated_block_file :: string where
  "repeated_block_file =
     ''[x]'' @ [NL] @ ''a: 1'' @ [NL] @ ''a: 2'' @ [NL] @ ''[x]'' @ [NL] @ ''b: 3'' @ [NL]"

definition header_in_value :: pydict where
  "header_in_value = [(PStr ''k'', PStr (''v'' @ [NL] @ ''[x]'' @ [NL] @ ''a: 9''))]"

section \<open>Strings, lines and entries\<close>

lemma readlines_line:
  "NL \<notin> set l \<Longrightarrow> readlines (l @ NL # rest) = (l @ [NL]) # readlines rest"
  by (induction l) auto

lemma length_dropWhile_less:
  "xs \<noteq> [] \<Longrightarrow> P (hd xs) \<Longrightarrow> length (dropWhile P xs) < length xs"
  by (cases xs) (auto simp: le_imp_less_Suc length_dropWhile_le)

lemma rstrip_snoc:
  "rstrip (s @ [c]) = (if is_space c then rstrip s else s @ [c])"
  by (simp add: rstrip_def)

lemma rstrip_Nil [simp]: "rstrip [] = []"
  by (simp add: rstrip_def)

lemma length_rstrip_le: "length (rstrip s) \<le> length s"
  by (simp add: rstrip_def length_dropWhile_le [of is_space "rev s", simplified])

lemma rstrip_id: "s \<noteq> [] \<Longrightarrow> \<not> is_space (last s) \<Longrightarrow> rstrip s = s"
  by (cases s rule: rev_cases) (auto simp: rstrip_snoc)

lemma strip_fixed:
  assumes "strip v = v" "v \<noteq> []"
  shows "\<not> is_space (last v)" "\<not> is_space (hd v)"
proof -
  show l: "\<not> is_space (last v)"
  proof
    assume sp: "is_space (last v)"
    from assms(2) obtain u c where v: "v = u @ [c]" by (cases v rule: rev_cases) auto
    with sp have "rstrip v = rstrip u" by (simp add: rstrip_snoc)
    then have "length (rstrip v) < length v"
      using length_rstrip_le [of u] v by simp
    then have "length (strip v) < length v"
      using length_dropWhile_le [of is_space "rstrip v"] by (simp add: strip_def)
    with assms(1) show False by simp
  qed
  show "\<not> is_space (hd v)"
  proof
    assume sp: "is_space (hd v)"
    have "rstrip v = v" using l assms(2) by (rule rstrip_id [rotated])
    then have "strip v = dropWhile is_space v" by (simp add: strip_def)
    then have "length (strip v) < length v"
      using length_dropWhile_less [of v is_space] sp assms(2) by simp
    with assms(1) show False by simp
  qed
qed

lemma strip_id: "v \<noteq> [] \<Longrightarrow> \<not> is_space (last v) \<Longrightarrow> \<not> is_space (hd v) \<Longrightarrow> strip v = v"
  by (cases v) (auto simp: strip_def rstrip_id)

lemma not_space_colon [simp]: "\<not> is_space (CHR '':'')" "is_space (CHR '' '')" "is_space NL"
  "\<not> is_space (CHR '']'')"
  by (simp_all add: is_space_def)

text \<open>The text of a serialised entry, right-stripped.\<close>
lemma rstrip_entry:
  assumes "strip v = v"
  shows "rstrip (k @ '': '' @ v @ [NL]) = (if v = [] then k @ '':'' else k @ '': '' @ v)"
proof (cases "v = []")
  case True
  have "rstrip ((k @ '':'') @ [CHR '' ''] @ [NL]) = k @ '':''"
    using rstrip_snoc [of "(k @ '':'') @ [CHR '' '']" NL] rstrip_snoc [of "k @ '':''" "CHR '' ''"]
      rstrip_snoc [of k "CHR '':''"] by simp
  with True show ?thesis by simp
next
  case False
  with assms have ns: "\<not> is_space (last v)" by (rule strip_fixed)
  have "rstrip ((k @ '': '' @ v) @ [NL]) = rstrip (k @ '': '' @ v)"
    by (simp only: rstrip_snoc) simp
  also have "\<dots> = k @ '': '' @ v"
    using False ns by (intro rstrip_id) auto
  finally show ?thesis using False by simp
qed

lemma parse_entry_colon:
  assumes "CHR '':'' \<notin> set k"
  shows "parse_entry (k @ CHR '':'' # w) = (PStr k, PStr (strip w))"
proof -
  have "takeWhile (\<lambda>c. c \<noteq> CHR '':'') (k @ CHR '':'' # w) = k"
    using assms by (induction k) auto
  moreover have "dropWhile (\<lambda>c. c \<noteq> CHR '':'') (k @ CHR '':'' # w) = CHR '':'' # w"
    using assms by (induction k) auto
  ultimately show ?thesis by (simp add: parse_entry_def)
qed


lemma strip_Nil [simp]: "strip [] = []"
  by (simp add: strip_def)

lemma strip_space_cons:
  assumes "strip v = v"
  shows "strip (CHR '' '' # v) = v"
proof (cases "v = []")
  case True
  then show ?thesis by (simp add: strip_def rstrip_def)
next
  case False
  with assms have ns: "\<not> is_space (last v)" "\<not> is_space (hd v)"
    by (rule strip_fixed)+
  have "rstrip (CHR '' '' # v) = CHR '' '' # v"
    using False ns by (intro rstrip_id) auto
  then show ?thesis using False ns by (cases v) (auto simp: strip_def)
qed

lemma readlines_concat: "list_all is_line ls \<Longrightarrow> readlines (concat ls @ rest) = ls @ readlines rest"
proof (induction ls)
  case Nil
  then show ?case by simp
next
  case (Cons l ls)
  then have "is_line l" by simp
  then obtain u where l: "l = u @ [NL]" and u: "NL \<notin> set u"
    by (cases l rule: rev_cases) (auto simp: is_line_def)
  have "readlines (u @ NL # (concat ls @ rest)) = (u @ [NL]) # readlines (concat ls @ rest)"
    using u by (rule readlines_line)
  with Cons l show ?case by simp
qed

lemma is_line_entry: "plain_entry e \<Longrightarrow> is_line (entry_line e)"
  by (cases e rule: plain_entry.cases) (auto simp: is_line_def butlast_append)

lemma keywords_loop_plain:
  "list_all plain_entry kw \<Longrightarrow> keywords_loop kw acc = Inr (acc @ concat (map entry_line kw))"
proof (induction kw arbitrary: acc)
  case Nil
  then show ?case by simp
next
  case (Cons e kw)
  then have e: "plain_entry e" and kw: "list_all plain_entry kw" by simp_all
  from e obtain k v where "e = (PStr k, PStr v)" "CHR '':'' \<notin> set k"
    by (cases e rule: plain_entry.cases) auto
  with Cons.IH [OF kw] show ?case by simp
qed

lemma read_line_entry:
  assumes "plain_entry (k, v)"
  shows "read_line (entry_line (k, v)) st = st\<lparr>keywords' := AList.update k v (keywords' st)\<rparr>"
proof -
  from assms obtain ks vs where kv: "k = PStr ks" "v = PStr vs"
    and c: "CHR '':'' \<notin> set ks" and sv: "strip vs = vs"
    and nb: "\<not> (ks \<noteq> [] \<and> hd ks = CHR ''['' \<and> vs \<noteq> [] \<and> last vs = CHR '']'')"
    by (cases "(k, v)" rule: plain_entry.cases) auto
  let ?text = "if vs = [] then ks @ '':'' else ks @ '': '' @ vs"
  have t: "rstrip (entry_line (k, v)) = ?text"
    using rstrip_entry [OF sv, of ks] kv by simp
  have ne: "?text \<noteq> []" by simp
  have nf: "\<not> block_flag ?text"
    using nb by (cases ks) (auto simp: block_flag_def)
  have pe: "parse_entry ?text = (k, v)"
  proof (cases "vs = []")
    case True
    then show ?thesis using parse_entry_colon [OF c, of "[]"] kv by simp
  next
    case False
    then show ?thesis
      using parse_entry_colon [OF c, of "CHR '' '' # vs"] kv strip_space_cons [OF sv] by simp
  qed
  show ?thesis
    unfolding read_line_def t Let_def using ne nf pe by simp
qed

lemma update_fresh: "k \<notin> fst ` set al \<Longrightarrow> AList.update k v al = al @ [(k, v)]"
  by (induction al) auto

lemma fold_read_line_entries:
  "list_all plain_entry kw \<Longrightarrow> distinct (map fst (keywords' st @ kw)) \<Longrightarrow>
   fold read_line (map entry_line kw) st = st\<lparr>keywords' := keywords' st @ kw\<rparr>"
proof (induction kw arbitrary: st)
  case Nil
  then show ?case by simp
next
  case (Cons e kw)
  obtain k v where e: "e = (k, v)" by (cases e)
  from Cons.prems e have pe: "plain_entry (k, v)" and pk: "list_all plain_entry kw" by simp_all
  from Cons.prems(2) e have fresh: "k \<notin> fst ` set (keywords' st)" by auto
  let ?st = "st\<lparr>keywords' := keywords' st @ [(k, v)]\<rparr>"
  have step: "read_line (entry_line e) st = ?st"
    using read_line_entry [OF pe, of st] update_fresh [OF fresh] e by simp
  have "distinct (map fst (keywords' ?st @ kw))" using Cons.prems(2) e by simp
  from Cons.IH [OF pk this] step show ?case using e by simp
qed

section \<open>Reading and writing whole files\<close>

lemma read_keywords_all_blocks:
  assumes "snd (splitext filename) = ''.keywords''"
  shows "read_keywords filename sublayer True files =
           Inr (Blocks (case files filename of None \<Rightarrow> [] | Some c \<Rightarrow> blocks (parse_file c)))"
  using assms by (simp add: read_keywords_def split: option.splits)

lemma write_keywords_no_sublayer:
  assumes "snd (splitext filename) = ''.keywords''"
  shows "write_keywords kw filename None files =
           (case keywords_to_string kw None of
              Inl e \<Rightarrow> (Inl e, files(filename \<mapsto> []))
            | Inr s \<Rightarrow> (Inr (), files(filename \<mapsto> s)))"
  using assms
  by (simp add: write_keywords_def read_keywords_all_blocks Let_def split: sum.splits list.splits)

lemma keywords_to_string_plain:
  "list_all plain_entry kw \<Longrightarrow>
   keywords_to_string kw sublayer =
     Inr ((case sublayer of None \<Rightarrow> [] | Some s \<Rightarrow> ''['' @ s @ '']'' @ [NL]) @ concat (map entry_line kw))"
  by (simp add: keywords_to_string_def keywords_loop_plain)

lemma parse_file_simple:
  assumes "list_all plain_entry kw" "distinct (map fst kw)"
  shows "parse_file (concat (map entry_line kw)) =
           \<lparr>blocks = [], keywords' = kw, current_block = None, first_keywords = Some kw\<rparr>"
proof -
  have "list_all is_line (map entry_line kw)"
    using assms(1) by (induction kw) (auto simp: is_line_entry)
  from readlines_concat [OF this, of "[]"]
  have "readlines (concat (map entry_line kw)) = map entry_line kw" by simp
  moreover have "fold read_line (map entry_line kw) init_state = init_state\<lparr>keywords' := kw\<rparr>"
    using fold_read_line_entries [OF assms(1), of init_state] assms(2) by (simp add: init_state_def)
  ultimately show ?thesis
    by (simp add: parse_file_def finish_def commit_block_def init_state_def)
qed

section \<open>A key whose value is None (C4)\<close>

text \<open>
  C4, as stated, fails: a key with value \<open>None\<close> is written as the line \<open>foo: None\<close>,
  and reading that line gives the four-letter string, not an absent value.
\<close>

theorem bare_key_counterexample:
  "fst (write_keywords [(PStr ''foo'', PNone)] ''layer.keywords'' None Map.empty) = Inr () \<and>
   read_keywords ''layer.keywords'' None False
     (snd (write_keywords [(PStr ''foo'', PNone)] ''layer.keywords'' None Map.empty))
   = Inr (Keywords [(PStr ''foo'', PStr ''None'')]) \<and>
   read_keywords ''layer.keywords'' None False
     (snd (write_keywords [(PStr ''foo'', PNone)] ''layer.keywords'' None Map.empty))
   \<noteq> Inr (Keywords [(PStr ''foo'', PNone)])"
  by code_simp

text \<open>
  C4, amended: for a file name with the extension \<open>.keywords\<close> and a key without colon
  and newline, writing the dict that maps the key to \<open>None\<close> (no sublayer) leaves the
  file with the single line \<open>key: None\<close>, and reading it back gives the key mapped to
  the string \<open>None\<close>.
\<close>

theorem bare_key_written_as_None:
  assumes "snd (splitext filename) = ''.keywords''"
    and "CHR '':'' \<notin> set key" and "NL \<notin> set key"
  shows "write_keywords [(PStr key, PNone)] filename None files
           = (Inr (), files(filename \<mapsto> key @ '': None'' @ [NL])) \<and>
         read_keywords filename None False (files(filename \<mapsto> key @ '': None'' @ [NL]))
           = Inr (Keywords [(PStr key, PStr ''None'')])"
proof -
  have s: "strip ''None'' = ''None''" by (simp add: strip_def rstrip_def is_space_def)
  have pl: "list_all plain_entry [(PStr key, PStr ''None'')]"
    using assms(2,3) s by simp
  have "parse_file (concat (map entry_line [(PStr key, PStr ''None'')])) =
          \<lparr>blocks = [], keywords' = [(PStr key, PStr ''None'')], current_block = None,
           first_keywords = Some [(PStr key, PStr ''None'')]\<rparr>"
    using pl by (rule parse_file_simple) simp
  then have r: "read_keywords filename None False (files(filename \<mapsto> key @ '': None'' @ [NL]))
           = Inr (Keywords [(PStr key, PStr ''None'')])"
    using assms(1) by (simp add: read_keywords_def)
  have w: "keywords_to_string [(PStr key, PNone)] None = Inr (key @ '': None'' @ [NL])"
    using assms(2) by (simp add: keywords_to_string_def)
  show ?thesis
    using write_keywords_no_sublayer [OF assms(1), of "[(PStr key, PNone)]" files] w r by simp
qed

theorem bare_key_written_as_None_witness:
  "snd (splitext ''layer.keywords'') = ''.keywords'' \<and> CHR '':'' \<notin> set ''foo'' \<and> NL \<notin> set ''foo'' \<and>
   write_keywords [(PStr ''foo'', PNone)] ''layer.keywords'' None Map.empty
           = (Inr (), [''layer.keywords'' \<mapsto> ''foo: None'' @ [NL]]) \<and>
   read_keywords ''layer.keywords'' None False [''layer.keywords'' \<mapsto> ''foo: None'' @ [NL]]
           = Inr (Keywords [(PStr ''foo'', PStr ''None'')])"
proof -
  have e: "snd (splitext ''layer.keywords'') = ''.keywords''" by code_simp
  have c: "CHR '':'' \<notin> set ''foo''" "NL \<notin> set ''foo''" by simp_all
  from bare_key_written_as_None [OF e c, of Map.empty] e c show ?thesis by simp
qed

section \<open>The branches of write\_keywords\<close>

lemma keywords_loop_error:
  "keywords_loop kw acc = Inl e \<Longrightarrow> keywords_loop kw acc' = Inl e"
  by (induction kw acc arbitrary: acc' rule: keywords_loop.induct)
     (auto split: pyval.splits option.splits if_splits)

lemma keywords_to_string_error:
  "keywords_to_string kw sublayer = Inl e \<Longrightarrow> keywords_to_string kw sublayer' = Inl e"
  unfolding keywords_to_string_def by (rule keywords_loop_error)

lemma write_keywords_simple:
  assumes "snd (splitext filename) = ''.keywords''" "\<not> is_multilayer filename files"
  shows "write_keywords kw filename sublayer files =
           (case keywords_to_string kw sublayer of
              Inl e \<Rightarrow> (Inl e, files(filename \<mapsto> []))
            | Inr s \<Rightarrow> (Inr (), files(filename \<mapsto> s)))"
  using assms
  by (simp add: write_keywords_def is_multilayer_def read_keywords_all_blocks Let_def
           split: sum.splits list.splits option.splits)

lemma write_keywords_empty_sublayer:
  assumes "snd (splitext filename) = ''.keywords''" "is_multilayer filename files"
  shows "write_keywords kw filename (Some []) files =
           (case keywords_to_string kw None of
              Inl e \<Rightarrow> (Inl e, files(filename \<mapsto> []))
            | Inr s \<Rightarrow> (Inr (), files(filename \<mapsto> s)))"
  using assms
  by (simp add: write_keywords_def is_multilayer_def read_keywords_all_blocks Let_def
           split: sum.splits list.splits option.splits)

lemma write_keywords_multilayer:
  assumes "snd (splitext filename) = ''.keywords''"
    and "read_keywords filename None True files = Inr (Blocks bs)" "bs \<noteq> []" "name \<noteq> []"
  shows "write_keywords kw filename (Some name) files =
           (fst (write_blocks (AList.update name kw bs) []),
            files(filename \<mapsto> snd (write_blocks (AList.update name kw bs) [])))"
  using assms
  by (simp add: write_keywords_def Let_def split: sum.splits list.splits option.splits prod.splits)

lemma write_blocks_rejects:
  "(name, kw) \<in> set bs \<Longrightarrow> keywords_to_string kw None = Inl e \<Longrightarrow>
   isl (fst (write_blocks bs out))"
proof (induction bs out rule: write_blocks.induct)
  case (1 out)
  then show ?case by simp
next
  case (2 key val rest out)
  show ?case
  proof (cases "keywords_to_string val (Some key)")
    case (Inl e')
    then show ?thesis by simp
  next
    case (Inr s)
    with 2 have "(name, kw) \<noteq> (key, val)"
      using keywords_to_string_error [of kw None e "Some key"] by auto
    with 2 Inr show ?thesis by auto
  qed
qed

lemma update_member: "(k, v) \<in> set (AList.update k v al)"
  by (induction al) auto

section \<open>A write that fails (C1)\<close>

text \<open>
  C1, as stated, fails: the file is opened for writing, and so emptied, before the keywords
  are checked. A call that is rejected for a key containing a colon leaves the file empty
  where it held a line before.
\<close>

theorem failed_validation_counterexample:
  "fst (write_keywords [(PStr ''a:b'', PStr ''c'')] ''layer.keywords'' None
          [''layer.keywords'' \<mapsto> ''title: x'' @ [NL]]) = Inl (KeyContainsColon ''a:b'') \<and>
   snd (write_keywords [(PStr ''a:b'', PStr ''c'')] ''layer.keywords'' None
          [''layer.keywords'' \<mapsto> ''title: x'' @ [NL]]) ''layer.keywords'' = Some [] \<and>
   snd (write_keywords [(PStr ''a:b'', PStr ''c'')] ''layer.keywords'' None
          [''layer.keywords'' \<mapsto> ''title: x'' @ [NL]]) ''layer.keywords''
     \<noteq> [''layer.keywords'' \<mapsto> ''title: x'' @ [NL]] ''layer.keywords''"
  by code_simp

text \<open>
  C1, amended: a call that fails the extension check leaves the file system as it was. A
  call with a good file name whose keywords are rejected (a key that is not a string, a key
  with a colon, a value that has no string form) fails after the file has been opened for
  writing: when the existing file is not multilayer, or no sublayer or the empty sublayer
  is given, the file is left empty and every other file is untouched.
\<close>

theorem failed_write_truncates:
  "(snd (splitext filename) \<noteq> ''.keywords'' \<longrightarrow>
      write_keywords kw filename sublayer files = (Inl (UnknownExtension filename), files)) \<and>
   (snd (splitext filename) = ''.keywords'' \<and> keywords_to_string kw sublayer = Inl e \<longrightarrow>
      isl (fst (write_keywords kw filename sublayer files)) \<and>
      (\<not> is_multilayer filename files \<or> sublayer = None \<or> sublayer = Some [] \<longrightarrow>
         write_keywords kw filename sublayer files = (Inl e, files(filename \<mapsto> []))))"
proof (intro conjI impI)
  assume "snd (splitext filename) \<noteq> ''.keywords''"
  then show "write_keywords kw filename sublayer files = (Inl (UnknownExtension filename), files)"
    by (simp add: write_keywords_def)
next
  assume a: "snd (splitext filename) = ''.keywords'' \<and> keywords_to_string kw sublayer = Inl e"
  then have ext: "snd (splitext filename) = ''.keywords''"
    and rej: "keywords_to_string kw None = Inl e"
    by (auto dest: keywords_to_string_error)
  have trunc: "write_keywords kw filename sublayer files = (Inl e, files(filename \<mapsto> []))"
    if "\<not> is_multilayer filename files \<or> sublayer = None \<or> sublayer = Some []"
  proof (cases "is_multilayer filename files")
    case False
    then show ?thesis using write_keywords_simple [OF ext False, of kw sublayer] a by simp
  next
    case True
    with that consider "sublayer = None" | "sublayer = Some []" by blast
    then show ?thesis
    proof cases
      case 1
      then show ?thesis using write_keywords_no_sublayer [OF ext, of kw files] rej by simp
    next
      case 2
      then show ?thesis using write_keywords_empty_sublayer [OF ext True, of kw] rej by simp
    qed
  qed
  then show "\<not> is_multilayer filename files \<or> sublayer = None \<or> sublayer = Some [] \<Longrightarrow>
         write_keywords kw filename sublayer files = (Inl e, files(filename \<mapsto> []))" .
  show "isl (fst (write_keywords kw filename sublayer files))"
  proof (cases "\<not> is_multilayer filename files \<or> sublayer = None \<or> sublayer = Some []")
    case True
    then show ?thesis using trunc by simp
  next
    case False
    then obtain name where n: "sublayer = Some name" "name \<noteq> []" and m: "is_multilayer filename files"
      by (cases sublayer) auto
    from m obtain bs where bs: "read_keywords filename None True files = Inr (Blocks bs)" "bs \<noteq> []"
      by (auto simp: is_multilayer_def split: sum.splits read_result.splits)
    show ?thesis
      using write_keywords_multilayer [OF ext bs n(2), of kw] n(1)
        write_blocks_rejects [OF update_member rej, of name bs "[]"] by simp
  qed
qed


theorem failed_write_truncates_witness:
  "snd (splitext ''layer.txt'') \<noteq> ''.keywords'' \<and>
   write_keywords [(PStr ''a'', PStr ''c'')] ''layer.txt'' None Map.empty
     = (Inl (UnknownExtension ''layer.txt''), Map.empty) \<and>
   snd (splitext ''layer.keywords'') = ''.keywords'' \<and>
   keywords_to_string [(PStr ''a:b'', PStr ''c'')] None = Inl (KeyContainsColon ''a:b'') \<and>
   isl (fst (write_keywords [(PStr ''a:b'', PStr ''c'')] ''layer.keywords'' None
               [''layer.keywords'' \<mapsto> ''title: x'' @ [NL]])) \<and>
   write_keywords [(PStr ''a:b'', PStr ''c'')] ''layer.keywords'' None
               [''layer.keywords'' \<mapsto> ''title: x'' @ [NL]]
     = (Inl (KeyContainsColon ''a:b''),
        [''layer.keywords'' \<mapsto> ''title: x'' @ [NL], ''layer.keywords'' \<mapsto> []])"
proof -
  have e1: "snd (splitext ''layer.txt'') \<noteq> ''.keywords''" by code_simp
  have e2: "snd (splitext ''layer.keywords'') = ''.keywords''" by code_simp
  have r: "keywords_to_string [(PStr ''a:b'', PStr ''c'')] None = Inl (KeyContainsColon ''a:b'')"
    by code_simp
  from failed_write_truncates [of "''layer.txt''" "[(PStr ''a'', PStr ''c'')]" None Map.empty] e1
  have 1: "write_keywords [(PStr ''a'', PStr ''c'')] ''layer.txt'' None Map.empty
     = (Inl (UnknownExtension ''layer.txt''), Map.empty)" by blast
  from failed_write_truncates [of "''layer.keywords''" "[(PStr ''a:b'', PStr ''c'')]" None
      "[''layer.keywords'' \<mapsto> ''title: x'' @ [NL]]" "KeyContainsColon ''a:b''"] e2 r
  have 2: "isl (fst (write_keywords [(PStr ''a:b'', PStr ''c'')] ''layer.keywords'' None
               [''layer.keywords'' \<mapsto> ''title: x'' @ [NL]]))"
    and 3: "write_keywords [(PStr ''a:b'', PStr ''c'')] ''layer.keywords'' None
               [''layer.keywords'' \<mapsto> ''title: x'' @ [NL]]
     = (Inl (KeyContainsColon ''a:b''),
        [''layer.keywords'' \<mapsto> ''title: x'' @ [NL], ''layer.keywords'' \<mapsto> []])"
    by blast+
  from e1 1 e2 r 2 3 show ?thesis by blast
qed

section \<open>Writing without sublayer over a multilayer file (C2)\<close>

text \<open>
  C2, as stated, fails: a dict is accepted by the writer as soon as its keys are strings
  without colon and its values have a string form, and the text format escapes nothing.
  The dict whose value holds a newline followed by the lines \<open>[x]\<close> and \<open>a: 9\<close> is
  written over the file with the sublayers \<open>x\<close> and \<open>y\<close>; afterwards reading all blocks
  finds a block \<open>x\<close>, asking for \<open>x\<close> gives its keywords, and the plain read gives a dict
  that is not the one written.
\<close>

theorem destructive_collapse_counterexample:
  "read_keywords ''layer.keywords'' None True [''layer.keywords'' \<mapsto> two_layers]
     = Inr (Blocks [(''x'', [(PStr ''a'', PStr ''1'')]), (''y'', [(PStr ''b'', PStr ''2'')])]) \<and>
   keywords_to_string header_in_value None
     = Inr (''k: v'' @ [NL] @ ''[x]'' @ [NL] @ ''a: 9'' @ [NL]) \<and>
   fst (write_keywords header_in_value ''layer.keywords'' None
          [''layer.keywords'' \<mapsto> two_layers]) = Inr () \<and>
   read_keywords ''layer.keywords'' None True
     (snd (write_keywords header_in_value ''layer.keywords'' None
             [''layer.keywords'' \<mapsto> two_layers]))
     = Inr (Blocks [(''x'', [(PStr ''a'', PStr ''9'')])]) \<and>
   read_keywords ''layer.keywords'' (Some ''x'') False
     (snd (write_keywords header_in_value ''layer.keywords'' None
             [''layer.keywords'' \<mapsto> two_layers]))
     = Inr (Keywords [(PStr ''a'', PStr ''9'')]) \<and>
   read_keywords ''layer.keywords'' None False
     (snd (write_keywords header_in_value ''layer.keywords'' None
             [''layer.keywords'' \<mapsto> two_layers]))
     = Inr (Keywords [(PStr ''k'', PStr ''v'')]) \<and>
   Keywords [(PStr ''k'', PStr ''v'')] \<noteq> Keywords header_in_value"
  by code_simp

text \<open>
  C2, amended: if the existing file is multilayer and holds the sublayers \<open>x\<close> and
  \<open>y\<close>, and \<open>new_kw\<close> is accepted by the writer, then \<open>write_keywords\<close> without sublayer
  succeeds and the file holds exactly the text of \<open>new_kw\<close> rendered as one block without
  header; whatever is read from the file afterwards is what would be read from a file
  that never held anything else. If moreover \<open>new_kw\<close> has distinct keys and each of its
  entries is a pair of strings that survives the text format (key without colon and
  newline, value without newline and surrounding whitespace, not a key that begins with
  an opening bracket beside a value that ends with a closing one), then reading all
  blocks gives no block, asking for \<open>x\<close> or \<open>y\<close> gives nothing, and the plain read gives
  \<open>new_kw\<close>.
\<close>

theorem destructive_collapse:
  assumes ext: "snd (splitext filename) = ''.keywords''"
    and multi: "read_keywords filename None True files = Inr (Blocks bs)"
    and x: "map_of bs x = Some kx" and y: "map_of bs y = Some ky" and xy: "x \<noteq> y"
    and valid: "keywords_to_string new_kw None = Inr s"
  shows "write_keywords new_kw filename None files = (Inr (), files(filename \<mapsto> s)) \<and>
         (\<forall>sublayer all_blocks.
            read_keywords filename sublayer all_blocks (files(filename \<mapsto> s)) =
            read_keywords filename sublayer all_blocks [filename \<mapsto> s]) \<and>
         (list_all plain_entry new_kw \<and> distinct (map fst new_kw) \<longrightarrow>
            read_keywords filename None True (files(filename \<mapsto> s)) = Inr (Blocks []) \<and>
            read_keywords filename (Some x) False (files(filename \<mapsto> s)) = Inr NoResult \<and>
            read_keywords filename (Some y) False (files(filename \<mapsto> s)) = Inr NoResult \<and>
            read_keywords filename None False (files(filename \<mapsto> s)) = Inr (Keywords new_kw))"
proof (intro conjI allI impI)
  show "write_keywords new_kw filename None files = (Inr (), files(filename \<mapsto> s))"
    using write_keywords_no_sublayer [OF ext, of new_kw files] valid by simp
  show "read_keywords filename sublayer all_blocks (files(filename \<mapsto> s)) =
        read_keywords filename sublayer all_blocks [filename \<mapsto> s]" for sublayer all_blocks
    by (simp add: read_keywords_def)
  assume p: "list_all plain_entry new_kw \<and> distinct (map fst new_kw)"
  then have "s = concat (map entry_line new_kw)"
    using keywords_to_string_plain [of new_kw None] valid by simp
  with p have pf: "parse_file s =
      \<lparr>blocks = [], keywords' = new_kw, current_block = None, first_keywords = Some new_kw\<rparr>"
    using parse_file_simple [of new_kw] by simp
  show "read_keywords filename None True (files(filename \<mapsto> s)) = Inr (Blocks [])"
    using ext pf by (simp add: read_keywords_def)
  show "read_keywords filename (Some x) False (files(filename \<mapsto> s)) = Inr NoResult"
    using ext pf by (simp add: read_keywords_def)
  show "read_keywords filename (Some y) False (files(filename \<mapsto> s)) = Inr NoResult"
    using ext pf by (simp add: read_keywords_def)
  show "read_keywords filename None False (files(filename \<mapsto> s)) = Inr (Keywords new_kw)"
    using ext pf by (simp add: read_keywords_def)
qed

theorem destructive_collapse_witness:
  "snd (splitext ''layer.keywords'') = ''.keywords'' \<and>
   read_keywords ''layer.keywords'' None True [''layer.keywords'' \<mapsto> two_layers]
     = Inr (Blocks [(''x'', [(PStr ''a'', PStr ''1'')]), (''y'', [(PStr ''b'', PStr ''2'')])]) \<and>
   keywords_to_string [(PStr ''c'', PStr ''3'')] None = Inr (''c: 3'' @ [NL]) \<and>
   write_keywords [(PStr ''c'', PStr ''3'')] ''layer.keywords'' None [''layer.keywords'' \<mapsto> two_layers]
     = (Inr (), [''layer.keywords'' \<mapsto> two_layers, ''layer.keywords'' \<mapsto> ''c: 3'' @ [NL]]) \<and>
   read_keywords ''layer.keywords'' None True
       [''layer.keywords'' \<mapsto> two_layers, ''layer.keywords'' \<mapsto> ''c: 3'' @ [NL]] = Inr (Blocks []) \<and>
   read_keywords ''layer.keywords'' (Some ''x'') False
       [''layer.keywords'' \<mapsto> two_layers, ''layer.keywords'' \<mapsto> ''c: 3'' @ [NL]] = Inr NoResult \<and>
   read_keywords ''layer.keywords'' None False
       [''layer.keywords'' \<mapsto> two_layers, ''layer.keywords'' \<mapsto> ''c: 3'' @ [NL]]
     = Inr (Keywords [(PStr ''c'', PStr ''3'')])"
proof -
  have e: "snd (splitext ''layer.keywords'') = ''.keywords''" by code_simp
  have r: "read_keywords ''layer.keywords'' None True [''layer.keywords'' \<mapsto> two_layers]
     = Inr (Blocks [(''x'', [(PStr ''a'', PStr ''1'')]), (''y'', [(PStr ''b'', PStr ''2'')])])"
    by code_simp
  have mx: "map_of [(''x'', [(PStr ''a'', PStr ''1'')]), (''y'', [(PStr ''b'', PStr ''2'')])] ''x''
     = Some [(PStr ''a'', PStr ''1'')]" by simp
  have my: "map_of [(''x'', [(PStr ''a'', PStr ''1'')]), (''y'', [(PStr ''b'', PStr ''2'')])] ''y''
     = Some [(PStr ''b'', PStr ''2'')]" by simp
  have xy: "''x'' \<noteq> ''y''" by simp
  have v: "keywords_to_string [(PStr ''c'', PStr ''3'')] None = Inr (''c: 3'' @ [NL])" by code_simp
  have p: "list_all plain_entry [(PStr ''c'', PStr ''3'')] \<and> distinct (map fst [(PStr ''c'', PStr ''3'')])"
    by code_simp
  from destructive_collapse [OF e r mx my xy v] p e r v show ?thesis by blast
qed

section \<open>The reader, group by group\<close>

lemma read_line_data:
  "is_data l \<Longrightarrow>
   read_line l st = st\<lparr>keywords' := AList.update (fst (line_entry l)) (snd (line_entry l)) (keywords' st)\<rparr>"
  by (simp add: read_line_def is_data_def line_entry_def Let_def split: prod.splits)

lemma read_line_blank:
  "\<not> is_data l \<Longrightarrow> \<not> is_header l \<Longrightarrow> read_line l st = st"
  by (auto simp: read_line_def is_data_def is_header_def Let_def)

lemma read_line_header:
  "is_header l \<Longrightarrow>
   read_line l st =
     st\<lparr>blocks := commit_block st,
        first_keywords :=
          (if first_keywords st = None \<and> keywords' st \<noteq> [] then Some (keywords' st)
           else first_keywords st),
        current_block := Some (header_name l),
        keywords' := []\<rparr>"
  by (simp add: read_line_def is_header_def header_name_def Let_def)

text \<open>A run of lines without header only adds entries to the keywords at hand.\<close>

lemma fold_read_line_group:
  "\<forall>l\<in>set grp. \<not> is_header l \<Longrightarrow>
   fold read_line grp st =
     st\<lparr>keywords' := fold (\<lambda>e kw. AList.update (fst e) (snd e) kw)
                         (map line_entry (filter is_data grp)) (keywords' st)\<rparr>"
proof (induction grp arbitrary: st)
  case Nil
  then show ?case by simp
next
  case (Cons l grp)
  then have nh: "\<not> is_header l" and rest: "\<forall>l\<in>set grp. \<not> is_header l" by simp_all
  show ?case
  proof (cases "is_data l")
    case True
    then show ?thesis using Cons.IH [OF rest] by (simp add: read_line_data)
  next
    case False
    then show ?thesis using Cons.IH [OF rest] nh by (simp add: read_line_blank)
  qed
qed

lemma update_not_Nil: "AList.update k v al \<noteq> []"
  by (cases al) auto

lemma fold_update_not_Nil:
  "es \<noteq> [] \<or> kw \<noteq> [] \<Longrightarrow> fold (\<lambda>e kw. AList.update (fst e) (snd e) kw) es kw \<noteq> []"
  by (induction es arbitrary: kw) (auto simp: update_not_Nil)

lemma group_keywords_not_Nil: "\<exists>l\<in>set grp. is_data l \<Longrightarrow> group_keywords grp \<noteq> []"
proof -
  assume "\<exists>l\<in>set grp. is_data l"
  then have "map line_entry (filter is_data grp) \<noteq> []"
    by (auto simp: filter_empty_conv)
  then show ?thesis unfolding group_keywords_def by (intro fold_update_not_Nil) simp
qed

text \<open>Before the first data line nothing is recorded.\<close>

lemma fold_read_line_no_data:
  "\<forall>l\<in>set pre. \<not> is_data l \<Longrightarrow>
   keywords' st = [] \<Longrightarrow> blocks st = [] \<Longrightarrow> first_keywords st = None \<Longrightarrow>
   keywords' (fold read_line pre st) = [] \<and> blocks (fold read_line pre st) = [] \<and>
   first_keywords (fold read_line pre st) = None"
proof (induction pre arbitrary: st)
  case Nil
  then show ?case by simp
next
  case (Cons l pre)
  show ?case
  proof (cases "is_header l")
    case True
    have "keywords' (read_line l st) = []" "blocks (read_line l st) = []"
      "first_keywords (read_line l st) = None"
      using Cons.prems True by (simp_all add: read_line_header commit_block_def split: option.splits)
    with Cons.IH [of "read_line l st"] Cons.prems(1) show ?thesis by simp
  next
    case False
    with Cons.prems have "read_line l st = st" by (simp add: read_line_blank)
    with Cons.IH [of st] Cons.prems show ?thesis by simp
  qed
qed

text \<open>Once the fallback is chosen it stays.\<close>

lemma read_line_first_keywords:
  "first_keywords st = Some fk \<Longrightarrow> first_keywords (read_line l st) = Some fk"
  by (cases "is_header l"; cases "is_data l")
     (simp_all add: read_line_header read_line_data read_line_blank)

lemma fold_read_line_first_keywords:
  "first_keywords st = Some fk \<Longrightarrow> first_keywords (fold read_line ls st) = Some fk"
  by (induction ls arbitrary: st) (simp_all add: read_line_first_keywords)

lemma finish_first_keywords:
  "first_keywords (finish st) =
     (case first_keywords st of None \<Rightarrow> Some (keywords' st) | Some fk \<Rightarrow> Some fk)"
  by (simp add: finish_def)

lemma first_group:
  assumes pre: "\<forall>l\<in>set pre. \<not> is_data l"
    and grp: "\<forall>l\<in>set grp. \<not> is_header l" "\<exists>l\<in>set grp. is_data l"
    and rest: "rest = [] \<or> is_header (hd rest)"
  shows "first_keywords (finish (fold read_line (pre @ grp @ rest) init_state))
           = Some (group_keywords grp)"
proof -
  let ?s1 = "fold read_line pre init_state"
  let ?s2 = "fold read_line grp ?s1"
  have s1: "keywords' ?s1 = []" "blocks ?s1 = []" "first_keywords ?s1 = None"
    using fold_read_line_no_data [OF pre, of init_state] by (simp_all add: init_state_def)
  have s2: "?s2 = ?s1\<lparr>keywords' := group_keywords grp\<rparr>"
    using fold_read_line_group [OF grp(1), of ?s1] s1 by (simp add: group_keywords_def)
  have ne: "group_keywords grp \<noteq> []" using grp(2) by (rule group_keywords_not_Nil)
  show ?thesis
  proof (cases rest)
    case Nil
    then show ?thesis using s1 s2 by (simp add: finish_first_keywords)
  next
    case (Cons h rest')
    with rest have h: "is_header h" by simp
    have "first_keywords (read_line h ?s2) = Some (group_keywords grp)"
      using s1 s2 ne by (simp add: read_line_header [OF h])
    then have "first_keywords (fold read_line rest' (read_line h ?s2)) = Some (group_keywords grp)"
      by (rule fold_read_line_first_keywords)
    then show ?thesis using Cons by (simp add: finish_first_keywords)
  qed
qed

lemma no_data_lines:
  assumes "\<forall>l\<in>set ls. \<not> is_data l"
  shows "first_keywords (finish (fold read_line ls init_state)) = Some []"
  using fold_read_line_no_data [OF assms, of init_state]
  by (simp add: init_state_def finish_first_keywords)

text \<open>A named block that no later header names again.\<close>

lemma update_other: "k' \<noteq> k \<Longrightarrow> map_of (AList.update k v al) k' = map_of al k'"
  by (simp add: update_conv')

lemma commit_block_other:
  "current_block st \<noteq> Some name \<Longrightarrow> map_of (commit_block st) name = map_of (blocks st) name"
  by (auto simp: commit_block_def update_conv' split: option.splits)

lemma fold_read_line_keeps_block:
  "\<forall>l\<in>set ls. is_header l \<longrightarrow> header_name l \<noteq> name \<Longrightarrow>
   current_block st \<noteq> Some name \<Longrightarrow>
   map_of (blocks (fold read_line ls st)) name = map_of (blocks st) name \<and>
   current_block (fold read_line ls st) \<noteq> Some name"
proof (induction ls arbitrary: st)
  case Nil
  then show ?case by simp
next
  case (Cons l ls)
  have step: "map_of (blocks (read_line l st)) name = map_of (blocks st) name \<and>
              current_block (read_line l st) \<noteq> Some name"
  proof (cases "is_header l")
    case True
    with Cons.prems show ?thesis by (simp add: read_line_header commit_block_other)
  next
    case False
    with Cons.prems(2) show ?thesis
      by (cases "is_data l") (simp_all add: read_line_data read_line_blank)
  qed
  from Cons.IH [of "read_line l st"] Cons.prems(1) step show ?case by simp
qed

lemma named_block:
  assumes h: "is_header h"
    and grp: "\<forall>l\<in>set grp. \<not> is_header l" "\<exists>l\<in>set grp. is_data l"
    and rest: "rest = [] \<or> is_header (hd rest)"
      "\<forall>l\<in>set rest. is_header l \<longrightarrow> header_name l \<noteq> header_name h"
  shows "map_of (blocks (finish (fold read_line (pre @ h # grp @ rest) init_state))) (header_name h)
           = Some (group_keywords grp)"
proof -
  let ?s0 = "fold read_line pre init_state"
  let ?s1 = "read_line h ?s0"
  let ?s2 = "fold read_line grp ?s1"
  let ?G = "group_keywords grp"
  have s1: "keywords' ?s1 = []" "current_block ?s1 = Some (header_name h)"
    by (simp_all add: read_line_header [OF h])
  have s2: "?s2 = ?s1\<lparr>keywords' := ?G\<rparr>"
    using fold_read_line_group [OF grp(1), of ?s1] s1 by (simp add: group_keywords_def)
  have ne: "?G \<noteq> []" using grp(2) by (rule group_keywords_not_Nil)
  have c2: "map_of (commit_block ?s2) (header_name h) = Some ?G"
    using s1 s2 ne by (simp add: commit_block_def update_conv')
  show ?thesis
  proof (cases rest)
    case Nil
    then show ?thesis using c2 by (simp add: finish_def)
  next
    case (Cons h' rest')
    with rest have h': "is_header h'" "header_name h' \<noteq> header_name h"
      and r': "\<forall>l\<in>set rest'. is_header l \<longrightarrow> header_name l \<noteq> header_name h" by simp_all
    let ?s3 = "read_line h' ?s2"
    have s3: "map_of (blocks ?s3) (header_name h) = Some ?G"
      "current_block ?s3 \<noteq> Some (header_name h)"
      using c2 h'(2) by (simp_all add: read_line_header [OF h'(1)])
    from fold_read_line_keeps_block [OF r' s3(2)] s3(1)
    have "map_of (blocks (fold read_line rest' ?s3)) (header_name h) = Some ?G"
      "current_block (fold read_line rest' ?s3) \<noteq> Some (header_name h)" by simp_all
    then have "map_of (commit_block (fold read_line rest' ?s3)) (header_name h) = Some ?G"
      by (simp add: commit_block_other)
    then show ?thesis using Cons by (simp add: finish_def)
  qed
qed

text \<open>The value of a key is that of its last line.\<close>

lemma map_of_fold_update:
  "map_of (fold (\<lambda>e kw. AList.update (fst e) (snd e) kw) es kw) = map_of (rev es @ kw)"
proof (induction es arbitrary: kw)
  case Nil
  then show ?case by simp
next
  case (Cons e es)
  have "map_of (rev es @ AList.update (fst e) (snd e) kw)
          = map_of (AList.update (fst e) (snd e) kw) ++ map_of (rev es)"
    by simp
  also have "\<dots> = (map_of kw)(fst e \<mapsto> snd e) ++ map_of (rev es)"
    by (simp only: update_conv')
  also have "\<dots> = map_of (rev (e # es) @ kw)"
    by (cases e) simp
  finally show ?case using Cons.IH [of "AList.update (fst e) (snd e) kw"] by simp
qed

lemma group_keywords_last:
  "map_of (group_keywords grp) = map_of (rev (map line_entry (filter is_data grp)))"
  by (simp add: group_keywords_def map_of_fold_update)

lemma read_keywords_existing:
  assumes "snd (splitext filename) = ''.keywords''" "files filename = Some content"
  shows "read_keywords filename None False files =
           (case first_keywords (parse_file content) of
              Some kw \<Rightarrow> Inr (Keywords kw) | None \<Rightarrow> Inr NoResult)"
    and "read_keywords filename (Some name) False files =
           (case map_of (blocks (parse_file content)) name of
              Some kw \<Rightarrow> Inr (Keywords kw) | None \<Rightarrow> Inr NoResult)"
    and "read_keywords filename sublayer True files = Inr (Blocks (blocks (parse_file content)))"
  using assms by (simp_all add: read_keywords_def)

section \<open>Reading without sublayer (C5)\<close>

lemma plain_read_group:
  assumes "snd (splitext filename) = ''.keywords''" and "files filename = Some content"
    and "readlines content = pre @ grp @ rest"
    and "\<forall>l\<in>set pre. \<not> is_data l" and "\<forall>l\<in>set grp. \<not> is_header l"
    and "rest = [] \<or> (is_header (hd rest) \<and> (\<exists>l\<in>set grp. is_data l))"
  shows "read_keywords filename None False files = Inr (Keywords (group_keywords grp))"
proof (cases "\<exists>l\<in>set grp. is_data l")
  case True
  from assms(6) have "rest = [] \<or> is_header (hd rest)" by blast
  from first_group [OF assms(4,5) True this] assms(3)
  have "first_keywords (parse_file content) = Some (group_keywords grp)"
    by (simp add: parse_file_def)
  then show ?thesis using read_keywords_existing(1) [of filename files content] assms(1,2) by simp
next
  case False
  with assms(6) have r: "rest = []" by blast
  from False have g: "group_keywords grp = []"
    by (simp add: group_keywords_def filter_empty_conv [THEN iffD2])
  from False assms(4) r have "\<forall>l\<in>set (pre @ grp @ rest). \<not> is_data l" by auto
  from no_data_lines [OF this] assms(3)
  have "first_keywords (parse_file content) = Some []" by (simp add: parse_file_def)
  then show ?thesis using read_keywords_existing(1) [of filename files content] assms(1,2) g by simp
qed

text \<open>
  C5, as stated, fails. In a file whose first header has no keyword lines the plain read
  returns the keywords of the first block that has some, here \<open>y\<close>, while the first block
  encountered, \<open>x\<close>, is not recorded at all. And in a file with a keyword line before its
  first header the plain read returns the lines before the header, although the file has a
  header.
\<close>

theorem first_block_counterexample:
  "list_ex is_header (readlines orphan_file) \<and>
   read_keywords ''layer.keywords'' (Some ''x'') False [''layer.keywords'' \<mapsto> orphan_file]
     = Inr (Keywords [(PStr ''b'', PStr ''2'')]) \<and>
   read_keywords ''layer.keywords'' None False [''layer.keywords'' \<mapsto> orphan_file]
     = Inr (Keywords [(PStr ''a'', PStr ''1'')]) \<and>
   read_keywords ''layer.keywords'' None False [''layer.keywords'' \<mapsto> orphan_file]
     \<noteq> Inr (Keywords [(PStr ''b'', PStr ''2'')]) \<and>
   map is_header (readlines empty_block_file) = [True, True, False] \<and>
   header_name (hd (readlines empty_block_file)) = ''x'' \<and>
   read_keywords ''layer.keywords'' (Some ''x'') False [''layer.keywords'' \<mapsto> empty_block_file]
     = Inr NoResult \<and>
   read_keywords ''layer.keywords'' None False [''layer.keywords'' \<mapsto> empty_block_file]
     = Inr (Keywords [(PStr ''b'', PStr ''2'')])"
  by code_simp

text \<open>
  C5, amended: for an existing file, read without sublayer and without \<open>all_blocks\<close>. If
  the file has no header, the result is the dict of all its keyword lines. If only headers
  and blank lines come before a header \<open>h\<close>, and the lines between \<open>h\<close> and the next
  header (or the end of the file) hold a keyword line, the result is the dict of those
  lines: the block of the first header that has keywords. Nothing is said about a file
  with keyword lines before its first header.
\<close>

theorem plain_read_first_block:
  assumes "snd (splitext filename) = ''.keywords''" and "files filename = Some content"
  shows "((\<forall>l\<in>set (readlines content). \<not> is_header l) \<longrightarrow>
            read_keywords filename None False files
              = Inr (Keywords (group_keywords (readlines content)))) \<and>
         (readlines content = pre @ h # grp @ rest \<and>
          (\<forall>l\<in>set pre. \<not> is_data l) \<and> is_header h \<and>
          (\<forall>l\<in>set grp. \<not> is_header l) \<and> (\<exists>l\<in>set grp. is_data l) \<and>
          (rest = [] \<or> is_header (hd rest)) \<longrightarrow>
            read_keywords filename None False files = Inr (Keywords (group_keywords grp)))"
proof (intro conjI impI)
  assume "\<forall>l\<in>set (readlines content). \<not> is_header l"
  then show "read_keywords filename None False files
              = Inr (Keywords (group_keywords (readlines content)))"
    using plain_read_group [where filename = filename and files = files and content = content
        and pre = "[]" and grp = "readlines content" and rest = "[]"] assms by simp
next
  assume a: "readlines content = pre @ h # grp @ rest \<and>
          (\<forall>l\<in>set pre. \<not> is_data l) \<and> is_header h \<and>
          (\<forall>l\<in>set grp. \<not> is_header l) \<and> (\<exists>l\<in>set grp. is_data l) \<and>
          (rest = [] \<or> is_header (hd rest))"
  then have "\<not> is_data h" by (simp add: is_header_def is_data_def)
  with a have "\<forall>l\<in>set (pre @ [h]). \<not> is_data l" by simp
  moreover from a have "readlines content = (pre @ [h]) @ grp @ rest" by simp
  ultimately show "read_keywords filename None False files = Inr (Keywords (group_keywords grp))"
    using a assms
    by (intro plain_read_group [where filename = filename and files = files and content = content
          and pre = "pre @ [h]" and grp = grp and rest = rest]) blast+
qed

theorem plain_read_first_block_witness:
  "snd (splitext ''layer.keywords'') = ''.keywords'' \<and>
   readlines plain_file = [''a: 1'' @ [NL], ''b: 2'' @ [NL]] \<and>
   read_keywords ''layer.keywords'' None False [''layer.keywords'' \<mapsto> plain_file]
     = Inr (Keywords [(PStr ''a'', PStr ''1''), (PStr ''b'', PStr ''2'')]) \<and>
   readlines empty_block_file = [''[x]'' @ [NL]] @ (''[y]'' @ [NL]) # [''b: 2'' @ [NL]] @ [] \<and>
   read_keywords ''layer.keywords'' None False [''layer.keywords'' \<mapsto> empty_block_file]
     = Inr (Keywords [(PStr ''b'', PStr ''2'')])"
proof -
  have e: "snd (splitext ''layer.keywords'') = ''.keywords''" by code_simp
  have f1: "[''layer.keywords'' \<mapsto> plain_file] ''layer.keywords'' = Some plain_file" by simp
  have r1: "readlines plain_file = [''a: 1'' @ [NL], ''b: 2'' @ [NL]]" by code_simp
  have n1: "\<forall>l\<in>set (readlines plain_file). \<not> is_header l" unfolding r1 by code_simp
  have g1: "group_keywords (readlines plain_file) = [(PStr ''a'', PStr ''1''), (PStr ''b'', PStr ''2'')]"
    by code_simp
  from plain_read_first_block [where filename = "''layer.keywords''"
      and files = "[''layer.keywords'' \<mapsto> plain_file]" and content = plain_file, OF e f1] n1 g1
  have 1: "read_keywords ''layer.keywords'' None False [''layer.keywords'' \<mapsto> plain_file]
     = Inr (Keywords [(PStr ''a'', PStr ''1''), (PStr ''b'', PStr ''2'')])" by simp
  have f2: "[''layer.keywords'' \<mapsto> empty_block_file] ''layer.keywords'' = Some empty_block_file"
    by simp
  have r2: "readlines empty_block_file = [''[x]'' @ [NL]] @ (''[y]'' @ [NL]) # [''b: 2'' @ [NL]] @ []"
    by code_simp
  have h2: "(\<forall>l\<in>set [''[x]'' @ [NL]]. \<not> is_data l) \<and> is_header (''[y]'' @ [NL]) \<and>
          (\<forall>l\<in>set [''b: 2'' @ [NL]]. \<not> is_header l) \<and> (\<exists>l\<in>set [''b: 2'' @ [NL]]. is_data l) \<and>
          ([] = [] \<or> is_header (hd []))" by code_simp
  have g2: "group_keywords [''b: 2'' @ [NL]] = [(PStr ''b'', PStr ''2'')]" by code_simp
  from plain_read_first_block [where filename = "''layer.keywords''"
      and files = "[''layer.keywords'' \<mapsto> empty_block_file]" and content = empty_block_file
      and pre = "[''[x]'' @ [NL]]" and h = "''[y]'' @ [NL]" and grp = "[''b: 2'' @ [NL]]"
      and rest = "[]", OF e f2] r2 h2 g2
  have 2: "read_keywords ''layer.keywords'' None False [''layer.keywords'' \<mapsto> empty_block_file]
     = Inr (Keywords [(PStr ''b'', PStr ''2'')])" by simp
  from e r1 1 r2 2 show ?thesis by blast
qed

section \<open>A key on several lines of one block (C10)\<close>

lemma group_keywords_last_line:
  assumes "grp = g1 @ l # g2" "is_data l" "line_entry l = (k, v)"
    and "\<forall>l'\<in>set g2. is_data l' \<longrightarrow> fst (line_entry l') \<noteq> k"
  shows "map_of (group_keywords grp) k = Some v"
proof -
  have "k \<notin> fst ` set (rev (map line_entry (filter is_data g2)))"
    using assms(4) by auto
  then have "map_of (rev (map line_entry (filter is_data g2))) k = None"
    by (simp add: map_of_eq_None_iff)
  then show ?thesis
    using assms(1-3) by (simp add: group_keywords_last map_add_def)
qed

text \<open>
  C10, as stated, fails for the block map and for the sublayer: a header that repeats the
  name of an earlier block replaces that block as a whole. In the file below the key \<open>a\<close>
  is on two lines of the first block \<open>x\<close>; the second block \<open>x\<close> takes its place, and the
  results with \<open>all_blocks\<close> and for the sublayer \<open>x\<close> do not hold the key \<open>a\<close> at all.
  The plain read returns the first block, with the value of the last line.
\<close>

theorem repeated_block_counterexample:
  "map is_header (readlines repeated_block_file) = [True, False, False, True, False] \<and>
   map line_entry (filter is_data (readlines repeated_block_file))
     = [(PStr ''a'', PStr ''1''), (PStr ''a'', PStr ''2''), (PStr ''b'', PStr ''3'')] \<and>
   read_keywords ''layer.keywords'' None True [''layer.keywords'' \<mapsto> repeated_block_file]
     = Inr (Blocks [(''x'', [(PStr ''b'', PStr ''3'')])]) \<and>
   read_keywords ''layer.keywords'' (Some ''x'') False [''layer.keywords'' \<mapsto> repeated_block_file]
     = Inr (Keywords [(PStr ''b'', PStr ''3'')]) \<and>
   map_of [(PStr ''b'', PStr ''3'')] (PStr ''a'') = None \<and>
   read_keywords ''layer.keywords'' None False [''layer.keywords'' \<mapsto> repeated_block_file]
     = Inr (Keywords [(PStr ''a'', PStr ''2'')])"
  by code_simp

text \<open>
  C10, amended: let the lines of an existing file be \<open>pre @ grp @ rest\<close>, where \<open>grp\<close> is
  a run of lines without header that ends at a header or at the end of the file, and let
  \<open>l\<close> be a data line of \<open>grp\<close> with key \<open>k\<close> and value \<open>v\<close> after which no data line of
  \<open>grp\<close> has the key \<open>k\<close>. If \<open>pre\<close> ends with a header and no header of \<open>rest\<close> repeats
  its name, then the result with \<open>all_blocks\<close>, for every sublayer argument, holds under
  that name a dict that maps \<open>k\<close> to \<open>v\<close>, and the result for that sublayer is a dict that
  maps \<open>k\<close> to \<open>v\<close>. If no data line is in \<open>pre\<close>, the result of the plain read is a dict
  that maps \<open>k\<close> to \<open>v\<close>.
\<close>

theorem last_line_wins:
  assumes ext: "snd (splitext filename) = ''.keywords''" and ex: "files filename = Some content"
    and lines: "readlines content = pre @ grp @ rest"
    and grp: "\<forall>l\<in>set grp. \<not> is_header l" and rest: "rest = [] \<or> is_header (hd rest)"
    and dup: "grp = g1 @ l # g2" "is_data l" "line_entry l = (k, v)"
      "\<forall>l'\<in>set g2. is_data l' \<longrightarrow> fst (line_entry l') \<noteq> k"
  shows "(pre \<noteq> [] \<and> is_header (last pre) \<and>
            (\<forall>l'\<in>set rest. is_header l' \<longrightarrow> header_name l' \<noteq> header_name (last pre)) \<longrightarrow>
          (\<exists>bs kw. read_keywords filename sublayer True files = Inr (Blocks bs) \<and>
                   map_of bs (header_name (last pre)) = Some kw \<and> map_of kw k = Some v) \<and>
          (\<exists>kw. read_keywords filename (Some (header_name (last pre))) False files
                   = Inr (Keywords kw) \<and> map_of kw k = Some v)) \<and>
         ((\<forall>l'\<in>set pre. \<not> is_data l') \<longrightarrow>
          (\<exists>kw. read_keywords filename None False files = Inr (Keywords kw) \<and>
                map_of kw k = Some v))"
proof (intro conjI impI)
  have data: "\<exists>l\<in>set grp. is_data l" using dup(1,2) by auto
  have v: "map_of (group_keywords grp) k = Some v"
    using dup by (rule group_keywords_last_line)
  {
    assume a: "pre \<noteq> [] \<and> is_header (last pre) \<and>
      (\<forall>l'\<in>set rest. is_header l' \<longrightarrow> header_name l' \<noteq> header_name (last pre))"
    then have pre: "pre = butlast pre @ [last pre]" by simp
    have "map_of (blocks (finish (fold read_line (butlast pre @ last pre # grp @ rest) init_state)))
            (header_name (last pre)) = Some (group_keywords grp)"
      using a grp data rest by (intro named_block) simp_all
    moreover have "butlast pre @ last pre # grp @ rest = readlines content"
      using lines pre by (metis append.assoc append_Cons append_Nil)
    ultimately have b: "map_of (blocks (parse_file content)) (header_name (last pre))
            = Some (group_keywords grp)"
      by (simp add: parse_file_def)
    show "\<exists>bs kw. read_keywords filename sublayer True files = Inr (Blocks bs) \<and>
                   map_of bs (header_name (last pre)) = Some kw \<and> map_of kw k = Some v"
      using read_keywords_existing(3) [of filename files content sublayer] ext ex b v by simp
    show "\<exists>kw. read_keywords filename (Some (header_name (last pre))) False files
                   = Inr (Keywords kw) \<and> map_of kw k = Some v"
      using read_keywords_existing(2) [of filename files content "header_name (last pre)"]
        ext ex b v by simp
  }
  assume p: "\<forall>l'\<in>set pre. \<not> is_data l'"
  from first_group [OF p grp data rest] lines
  have "first_keywords (parse_file content) = Some (group_keywords grp)"
    by (simp add: parse_file_def)
  then show "\<exists>kw. read_keywords filename None False files = Inr (Keywords kw) \<and>
                map_of kw k = Some v"
    using read_keywords_existing(1) [of filename files content] ext ex v by simp
qed

theorem last_line_wins_witness:
  "snd (splitext ''layer.keywords'') = ''.keywords'' \<and>
   readlines twice_file = [''[x]'' @ [NL]] @ [''a: 1'' @ [NL], ''b: 2'' @ [NL], ''a: 3'' @ [NL]] @ [] \<and>
   line_entry (''a: 3'' @ [NL]) = (PStr ''a'', PStr ''3'') \<and>
   (\<exists>bs kw. read_keywords ''layer.keywords'' None True [''layer.keywords'' \<mapsto> twice_file]
               = Inr (Blocks bs) \<and>
            map_of bs ''x'' = Some kw \<and> map_of kw (PStr ''a'') = Some (PStr ''3'')) \<and>
   (\<exists>kw. read_keywords ''layer.keywords'' (Some ''x'') False [''layer.keywords'' \<mapsto> twice_file]
               = Inr (Keywords kw) \<and> map_of kw (PStr ''a'') = Some (PStr ''3'')) \<and>
   (\<exists>kw. read_keywords ''layer.keywords'' None False [''layer.keywords'' \<mapsto> twice_file]
               = Inr (Keywords kw) \<and> map_of kw (PStr ''a'') = Some (PStr ''3''))"
proof -
  let ?pre = "[''[x]'' @ [NL]]"
  let ?grp = "[''a: 1'' @ [NL], ''b: 2'' @ [NL], ''a: 3'' @ [NL]]"
  have e: "snd (splitext ''layer.keywords'') = ''.keywords''" by code_simp
  have f: "[''layer.keywords'' \<mapsto> twice_file] ''layer.keywords'' = Some twice_file" by simp
  have r: "readlines twice_file = ?pre @ ?grp @ []" by code_simp
  have g: "\<forall>l\<in>set ?grp. \<not> is_header l" by code_simp
  have d: "?grp = [''a: 1'' @ [NL], ''b: 2'' @ [NL]] @ (''a: 3'' @ [NL]) # []" by simp
  have i: "is_data (''a: 3'' @ [NL])" by code_simp
  have k: "line_entry (''a: 3'' @ [NL]) = (PStr ''a'', PStr ''3'')" by code_simp
  have n: "\<forall>l'\<in>set []. is_data l' \<longrightarrow> fst (line_entry l') \<noteq> PStr ''a''" by simp
  have h: "?pre \<noteq> [] \<and> is_header (last ?pre) \<and>
     (\<forall>l'\<in>set []. is_header l' \<longrightarrow> header_name l' \<noteq> header_name (last ?pre))" by code_simp
  have hn: "header_name (last ?pre) = ''x''" by code_simp
  have p: "\<forall>l'\<in>set ?pre. \<not> is_data l'" by code_simp
  from last_line_wins [where filename = "''layer.keywords''"
      and files = "[''layer.keywords'' \<mapsto> twice_file]" and content = twice_file
      and sublayer = None, OF e f r g _ d i k n] h p hn
  show ?thesis using e r k by simp
qed

section \<open>Two sublayers written one after the other (C3)\<close>

lemma rstrip_header_line: "rstrip (header_line name) = ''['' @ name @ '']''"
proof -
  have "rstrip ((''['' @ name @ '']'') @ [NL]) = rstrip (''['' @ name @ '']'')"
    by (simp only: rstrip_snoc) simp
  also have "\<dots> = ''['' @ name @ '']''" by (rule rstrip_id) simp_all
  finally show ?thesis by (simp add: header_line_def)
qed

lemma is_header_header_line: "is_header (header_line name)"
  by (simp add: is_header_def rstrip_header_line block_flag_def)

lemma header_name_header_line: "header_name (header_line name) = name"
  by (simp add: header_name_def rstrip_header_line butlast_append)

lemma is_line_header_line: "NL \<notin> set name \<Longrightarrow> is_line (header_line name)"
  by (simp add: is_line_def header_line_def butlast_append)

lemma is_line_blank: "is_line [NL]"
  by (simp add: is_line_def)

lemma read_line_NL: "read_line [NL] st = st"
  by (simp add: read_line_def rstrip_def)

text \<open>Reading a header line and the entries written under it.\<close>

lemma fold_read_line_block:
  assumes "list_all plain_entry kw" "distinct (map fst kw)"
  shows "fold read_line (header_line name # map entry_line kw) st =
           \<lparr>blocks = commit_block st,
            keywords' = kw,
            current_block = Some name,
            first_keywords =
              (if first_keywords st = None \<and> keywords' st \<noteq> [] then Some (keywords' st)
               else first_keywords st)\<rparr>"
proof -
  let ?s = "read_line (header_line name) st"
  have k: "keywords' ?s = []"
    by (simp add: read_line_header [OF is_header_header_line])
  have "fold read_line (map entry_line kw) ?s = ?s\<lparr>keywords' := kw\<rparr>"
    using fold_read_line_entries [OF assms(1), of ?s] assms(2) k by simp
  then show ?thesis
    by (simp add: read_line_header [OF is_header_header_line] header_name_header_line)
qed

lemma keywords_to_string_block:
  "list_all plain_entry kw \<Longrightarrow>
   keywords_to_string kw (Some name) = Inr (header_line name @ concat (map entry_line kw))"
  by (simp add: keywords_to_string_plain header_line_def)

lemma lines_block:
  assumes "NL \<notin> set name" "list_all plain_entry kw"
  shows "list_all is_line (header_line name # map entry_line kw)"
proof -
  have "list_all is_line (map entry_line kw)"
    using assms(2) by (induction kw) (auto simp: is_line_entry)
  then show ?thesis using assms(1) by (simp add: is_line_header_line)
qed

text \<open>The file after the first write, and what it parses to.\<close>

lemma parse_file_one_block:
  assumes "NL \<notin> set name" "list_all plain_entry kw" "distinct (map fst kw)" "kw \<noteq> []"
  shows "parse_file (header_line name @ concat (map entry_line kw)) =
           \<lparr>blocks = [(name, kw)], keywords' = kw, current_block = Some name,
            first_keywords = Some kw\<rparr>"
proof -
  have "readlines (concat (header_line name # map entry_line kw) @ []) =
          (header_line name # map entry_line kw) @ readlines []"
    using lines_block [OF assms(1,2)] by (rule readlines_concat)
  then have "readlines (header_line name @ concat (map entry_line kw)) =
          header_line name # map entry_line kw" by simp
  then show ?thesis
    using fold_read_line_block [OF assms(2,3), of name init_state] assms(4)
    by (simp add: parse_file_def finish_def commit_block_def init_state_def)
qed

lemma parse_file_two_blocks:
  assumes "NL \<notin> set nx" "list_all plain_entry kx" "distinct (map fst kx)" "kx \<noteq> []"
    and "NL \<notin> set ny" "list_all plain_entry ky" "distinct (map fst ky)" "ky \<noteq> []"
    and "nx \<noteq> ny"
  shows "parse_file (header_line nx @ concat (map entry_line kx) @ [NL] @
                     header_line ny @ concat (map entry_line ky) @ [NL]) =
           \<lparr>blocks = [(nx, kx), (ny, ky)], keywords' = ky, current_block = Some ny,
            first_keywords = Some kx\<rparr>"
proof -
  let ?bx = "header_line nx # map entry_line kx"
  let ?by = "header_line ny # map entry_line ky"
  have "list_all is_line (?bx @ [[NL]] @ ?by @ [[NL]])"
    using lines_block [OF assms(1,2)] lines_block [OF assms(5,6)] is_line_blank by simp
  from readlines_concat [OF this, of "[]"]
  have rl: "readlines (header_line nx @ concat (map entry_line kx) @ [NL] @
                     header_line ny @ concat (map entry_line ky) @ [NL]) =
          ?bx @ [[NL]] @ ?by @ [[NL]]" by simp
  define s1 where "s1 = fold read_line ?bx init_state"
  define s2 where "s2 = fold read_line ?by (read_line [NL] s1)"
  have s1: "s1 = \<lparr>blocks = [], keywords' = kx, current_block = Some nx, first_keywords = None\<rparr>"
    unfolding s1_def using fold_read_line_block [OF assms(2,3), of nx init_state]
    by (simp add: commit_block_def init_state_def)
  have s2: "s2 = \<lparr>blocks = [(nx, kx)], keywords' = ky, current_block = Some ny,
                   first_keywords = Some kx\<rparr>"
    unfolding s2_def read_line_NL using fold_read_line_block [OF assms(6,7), of ny s1] assms(4)
    by (simp add: s1 commit_block_def)
  have "fold read_line (?bx @ [[NL]] @ ?by @ [[NL]]) init_state = read_line [NL] s2"
    unfolding s1_def s2_def by (simp only: fold_append comp_apply fold_simps)
  then have "fold read_line (?bx @ [[NL]] @ ?by @ [[NL]]) init_state =
      \<lparr>blocks = [(nx, kx)], keywords' = ky, current_block = Some ny, first_keywords = Some kx\<rparr>"
    by (simp only: read_line_NL s2)
  then have fl: "fold read_line (readlines (header_line nx @ concat (map entry_line kx) @ [NL] @
                     header_line ny @ concat (map entry_line ky) @ [NL])) init_state =
      \<lparr>blocks = [(nx, kx)], keywords' = ky, current_block = Some ny, first_keywords = Some kx\<rparr>"
    by (simp only: rl)
  show ?thesis
    unfolding parse_file_def fl using assms(8,9) by (simp add: finish_def commit_block_def)
qed

text \<open>
  C3, as stated, fails: the keys and values of an empty dict meet every condition of the
  claim, but a block without keyword lines is not recorded by the reader. After writing
  the empty dict as sublayer \<open>x\<close> and a dict as sublayer \<open>y\<close>, the file holds the block
  \<open>y\<close> alone, and asking for \<open>x\<close> gives \<open>None\<close>.
\<close>

theorem two_sublayers_counterexample:
  "fst (write_keywords [] ''layer.keywords'' (Some ''x'') Map.empty) = Inr () \<and>
   fst (write_keywords [(PStr ''b'', PStr ''2'')] ''layer.keywords'' (Some ''y'')
          (snd (write_keywords [] ''layer.keywords'' (Some ''x'') Map.empty))) = Inr () \<and>
   read_keywords ''layer.keywords'' None True
     (snd (write_keywords [(PStr ''b'', PStr ''2'')] ''layer.keywords'' (Some ''y'')
          (snd (write_keywords [] ''layer.keywords'' (Some ''x'') Map.empty))))
     = Inr (Blocks [(''y'', [(PStr ''b'', PStr ''2'')])]) \<and>
   read_keywords ''layer.keywords'' (Some ''x'') False
     (snd (write_keywords [(PStr ''b'', PStr ''2'')] ''layer.keywords'' (Some ''y'')
          (snd (write_keywords [] ''layer.keywords'' (Some ''x'') Map.empty))))
     = Inr NoResult \<and>
   read_keywords ''layer.keywords'' (Some ''x'') False
     (snd (write_keywords [(PStr ''b'', PStr ''2'')] ''layer.keywords'' (Some ''y'')
          (snd (write_keywords [] ''layer.keywords'' (Some ''x'') Map.empty))))
     \<noteq> Inr (Keywords [])"
  by code_simp

text \<open>
  C3, amended: let the file name have the extension \<open>.keywords\<close> and the file not exist,
  and let \<open>kx\<close> and \<open>ky\<close> be non-empty dicts whose entries are strings, with keys free of
  colon and newline, values free of newline and of surrounding whitespace, and no entry
  whose key begins with an opening bracket while its value ends with a closing one. Then
  writing \<open>kx\<close> as sublayer \<open>x\<close> and \<open>ky\<close> as sublayer \<open>y\<close> both succeed; afterwards
  reading all blocks gives the two blocks \<open>x\<close> with \<open>kx\<close> and \<open>y\<close> with \<open>ky\<close>, and
  reading sublayer \<open>x\<close> gives \<open>kx\<close>.
\<close>

theorem two_sublayers_round_trip:
  assumes ext: "snd (splitext filename) = ''.keywords''" and fresh: "files filename = None"
    and kx: "list_all plain_entry kx" "distinct (map fst kx)" "kx \<noteq> []"
    and ky: "list_all plain_entry ky" "distinct (map fst ky)" "ky \<noteq> []"
  shows "fst (write_keywords kx filename (Some ''x'') files) = Inr () \<and>
         fst (write_keywords ky filename (Some ''y'')
                (snd (write_keywords kx filename (Some ''x'') files))) = Inr () \<and>
         read_keywords filename None True
           (snd (write_keywords ky filename (Some ''y'')
                  (snd (write_keywords kx filename (Some ''x'') files))))
           = Inr (Blocks [(''x'', kx), (''y'', ky)]) \<and>
         read_keywords filename (Some ''x'') False
           (snd (write_keywords ky filename (Some ''y'')
                  (snd (write_keywords kx filename (Some ''x'') files))))
           = Inr (Keywords kx)"
proof -
  let ?c1 = "header_line ''x'' @ concat (map entry_line kx)"
  let ?c2 = "header_line ''x'' @ concat (map entry_line kx) @ [NL] @
             header_line ''y'' @ concat (map entry_line ky) @ [NL]"
  let ?f1 = "files(filename \<mapsto> ?c1)"
  let ?f2 = "?f1(filename \<mapsto> ?c2)"
  have "\<not> is_multilayer filename files"
    using ext fresh by (simp add: is_multilayer_def read_keywords_def)
  from write_keywords_simple [OF ext this, of kx "Some ''x''"]
  have w1: "write_keywords kx filename (Some ''x'') files = (Inr (), ?f1)"
    by (simp add: keywords_to_string_block [OF kx(1)])
  have p1: "parse_file ?c1 = \<lparr>blocks = [(''x'', kx)], keywords' = kx,
              current_block = Some ''x'', first_keywords = Some kx\<rparr>"
    using kx by (intro parse_file_one_block) simp_all
  have r1: "read_keywords filename None True ?f1 = Inr (Blocks [(''x'', kx)])"
    using read_keywords_existing(3) [of filename ?f1 ?c1 None] ext p1 by simp
  have wb: "write_blocks (AList.update ''y'' ky [(''x'', kx)]) [] = (Inr (), ?c2)"
    by (simp add: keywords_to_string_block [OF kx(1)] keywords_to_string_block [OF ky(1)])
  have "write_keywords ky filename (Some ''y'') ?f1 =
          (fst (write_blocks (AList.update ''y'' ky [(''x'', kx)]) []),
           ?f1(filename \<mapsto> snd (write_blocks (AList.update ''y'' ky [(''x'', kx)]) [])))"
    by (rule write_keywords_multilayer [OF ext r1]) simp_all
  then have w2: "write_keywords ky filename (Some ''y'') ?f1 = (Inr (), ?f2)"
    by (simp only: wb fst_conv snd_conv)
  have p2: "parse_file ?c2 = \<lparr>blocks = [(''x'', kx), (''y'', ky)], keywords' = ky,
              current_block = Some ''y'', first_keywords = Some kx\<rparr>"
    using kx ky by (intro parse_file_two_blocks) simp_all
  have "read_keywords filename None True ?f2 = Inr (Blocks [(''x'', kx), (''y'', ky)])"
    using read_keywords_existing(3) [of filename ?f2 ?c2 None] ext p2 by simp
  moreover have "read_keywords filename (Some ''x'') False ?f2 = Inr (Keywords kx)"
    using read_keywords_existing(2) [of filename ?f2 ?c2 "''x''"] ext p2 by simp
  ultimately show ?thesis by (simp add: w1 w2)
qed

theorem two_sublayers_round_trip_witness:
  "snd (splitext ''layer.keywords'') = ''.keywords'' \<and>
   read_keywords ''layer.keywords'' None True
     (snd (write_keywords [(PStr ''b'', PStr ''2'')] ''layer.keywords'' (Some ''y'')
          (snd (write_keywords [(PStr ''a'', PStr ''1'')] ''layer.keywords'' (Some ''x'') Map.empty))))
     = Inr (Blocks [(''x'', [(PStr ''a'', PStr ''1'')]), (''y'', [(PStr ''b'', PStr ''2'')])]) \<and>
   read_keywords ''layer.keywords'' (Some ''x'') False
     (snd (write_keywords [(PStr ''b'', PStr ''2'')] ''layer.keywords'' (Some ''y'')
          (snd (write_keywords [(PStr ''a'', PStr ''1'')] ''layer.keywords'' (Some ''x'') Map.empty))))
     = Inr (Keywords [(PStr ''a'', PStr ''1'')])"
proof -
  have e: "snd (splitext ''layer.keywords'') = ''.keywords''" by code_simp
  have f: "Map.empty ''layer.keywords'' = None" by simp
  have x: "list_all plain_entry [(PStr ''a'', PStr ''1'')]" "distinct (map fst [(PStr ''a'', PStr ''1'')])"
    "[(PStr ''a'', PStr ''1'')] \<noteq> []" by code_simp+
  have y: "list_all plain_entry [(PStr ''b'', PStr ''2'')]" "distinct (map fst [(PStr ''b'', PStr ''2'')])"
    "[(PStr ''b'', PStr ''2'')] \<noteq> []" by code_simp+
  from two_sublayers_round_trip [where filename = "''layer.keywords''" and files = Map.empty,
      OF e f x y] e
  show ?thesis by blast
qed

section \<open>Intersection of bounding boxes (C6)\<close>

lemma four_updates:
  "length r = 4 \<Longrightarrow> r[0 := a, 1 := b, 2 := c, 3 := d] = [a, b, c, d]"
  by (auto simp: length_Suc_conv eval_nat_numeral)

lemma bbox_loop_bad:
  "\<exists>box\<in>set args. \<not> good_box box \<Longrightarrow> isl (bbox_loop args r)"
  by (induction args r rule: bbox_loop.induct) (auto simp: good_box_def)

lemma bbox_loop_good:
  "\<forall>box\<in>set args. good_box box \<Longrightarrow> length r = 4 \<Longrightarrow>
   bbox_loop args r =
     Inr [fold max (map (\<lambda>b. b ! 0) args) (r ! 0), fold max (map (\<lambda>b. b ! 1) args) (r ! 1),
          fold min (map (\<lambda>b. b ! 2) args) (r ! 2), fold min (map (\<lambda>b. b ! 3) args) (r ! 3)]"
proof (induction args arbitrary: r)
  case Nil
  then show ?case by (auto simp: length_Suc_conv eval_nat_numeral)
next
  case (Cons box args)
  then have g: "good_box box" and rest: "\<forall>box\<in>set args. good_box box" by simp_all
  let ?r = "[max (r ! 0) (box ! 0), max (r ! 1) (box ! 1), min (r ! 2) (box ! 2),
             min (r ! 3) (box ! 3)]"
  have "bbox_loop (box # args) r = bbox_loop args ?r"
    using g four_updates [OF Cons.prems(2)] by (simp add: good_box_def)
  also have "\<dots> = Inr [fold max (map (\<lambda>b. b ! 0) args) (?r ! 0),
                        fold max (map (\<lambda>b. b ! 1) args) (?r ! 1),
                        fold min (map (\<lambda>b. b ! 2) args) (?r ! 2),
                        fold min (map (\<lambda>b. b ! 3) args) (?r ! 3)]"
    by (rule Cons.IH [OF rest]) simp
  finally show ?case by (simp add: max.commute min.commute)
qed

lemma fold_max_Max: "fold max xs (x::real) = Max (insert x (set xs))"
  using Max.set_eq_fold [of x xs] by simp

lemma fold_min_Min: "fold min xs (x::real) = Min (insert x (set xs))"
  using Min.set_eq_fold [of x xs] by simp

text \<open>
  C6: \<open>bbox_intersection\<close> fails for fewer than two boxes; it fails exactly when there are
  fewer than two boxes or some box has not four coordinates, or west not less than east,
  or south not less than north. For two or more boxes that pass the checks it returns the
  list of the largest west, the largest south, the smallest east and the smallest north
  among the boxes and the box \<open>[-180, -90, 180, 90]\<close>, if in that list west is less than
  east and south less than north, and \<open>None\<close> otherwise. The two examples of the
  specification are instances.
\<close>

theorem bbox_intersection_result:
  "(length args < 2 \<longrightarrow> bbox_intersection args = Inl TooFewBoxes) \<and>
   (isl (bbox_intersection args) \<longleftrightarrow>
      length args < 2 \<or>
      (\<exists>box\<in>set args. length box \<noteq> 4 \<or> box ! 2 \<le> box ! 0 \<or> box ! 3 \<le> box ! 1)) \<and>
   (2 \<le> length args \<and>
    (\<forall>box\<in>set args. length box = 4 \<and> box ! 0 < box ! 2 \<and> box ! 1 < box ! 3) \<longrightarrow>
      bbox_intersection args =
        (let W = Max (insert (-180) ((\<lambda>b. b ! 0) ` set args));
             S = Max (insert (-90) ((\<lambda>b. b ! 1) ` set args));
             E = Min (insert 180 ((\<lambda>b. b ! 2) ` set args));
             N = Min (insert 90 ((\<lambda>b. b ! 3) ` set args))
         in if W < E \<and> S < N then Inr (Some [W, S, E, N]) else Inr None)) \<and>
   bbox_intersection [[0, 0, 10, 10], [5, 5, 15, 15]] = Inr (Some [5, 5, 10, 10]) \<and>
   bbox_intersection [[0, 0, 1, 1], [2, 2, 3, 3]] = Inr None"
proof (intro conjI impI)
  show "length args < 2 \<Longrightarrow> bbox_intersection args = Inl TooFewBoxes"
    by (simp add: bbox_intersection_def)
  have bad: "(\<exists>box\<in>set args. length box \<noteq> 4 \<or> box ! 2 \<le> box ! 0 \<or> box ! 3 \<le> box ! 1)
      \<longleftrightarrow> (\<exists>box\<in>set args. \<not> good_box box)"
    by (auto simp: good_box_def not_less)
  show "isl (bbox_intersection args) \<longleftrightarrow>
      length args < 2 \<or>
      (\<exists>box\<in>set args. length box \<noteq> 4 \<or> box ! 2 \<le> box ! 0 \<or> box ! 3 \<le> box ! 1)"
  proof (cases "length args < 2")
    case True
    then show ?thesis by (simp add: bbox_intersection_def)
  next
    case False
    show ?thesis
    proof (cases "\<exists>box\<in>set args. \<not> good_box box")
      case True
      from bbox_loop_bad [OF this, of "[-180, -90, 180, 90]"] True bad show ?thesis
        by (auto simp: bbox_intersection_def split: sum.splits)
    next
      case f: False
      then have "\<forall>box\<in>set args. good_box box" by blast
      from bbox_loop_good [OF this, of "[-180, -90, 180, 90]"] f bad False show ?thesis
        by (simp add: bbox_intersection_def)
    qed
  qed
  show "bbox_intersection [[0, 0, 10, 10], [5, 5, 15, 15]] = Inr (Some [5, 5, 10, 10])"
    by (simp add: bbox_intersection_def eval_nat_numeral)
  show "bbox_intersection [[0, 0, 1, 1], [2, 2, 3, 3]] = Inr None"
    by (simp add: bbox_intersection_def eval_nat_numeral)
  assume a: "2 \<le> length args \<and>
    (\<forall>box\<in>set args. length box = 4 \<and> box ! 0 < box ! 2 \<and> box ! 1 < box ! 3)"
  then have "\<forall>box\<in>set args. good_box box" by (simp add: good_box_def)
  from bbox_loop_good [OF this, of "[-180, -90, 180, 90]"] a
  show "bbox_intersection args =
        (let W = Max (insert (-180) ((\<lambda>b. b ! 0) ` set args));
             S = Max (insert (-90) ((\<lambda>b. b ! 1) ` set args));
             E = Min (insert 180 ((\<lambda>b. b ! 2) ` set args));
             N = Min (insert 90 ((\<lambda>b. b ! 3) ` set args))
         in if W < E \<and> S < N then Inr (Some [W, S, E, N]) else Inr None)"
    by (simp add: bbox_intersection_def fold_max_Max fold_min_Min Let_def)
qed

theorem bbox_intersection_result_witness:
  "bbox_intersection [[0, 0, 1, 1]] = Inl TooFewBoxes \<and>
   isl (bbox_intersection [[0, 0, 1, 1], [3, 0, 2, 1]]) \<and>
   bbox_intersection [[-200, 0, 10, 10], [-190, 5, 15, 15]] = Inr (Some [-180, 5, 10, 10])"
proof -
  have 1: "bbox_intersection [[0, 0, 1, 1]] = Inl TooFewBoxes"
    using bbox_intersection_result [of "[[0, 0, 1, 1]]"] by simp
  have 2: "isl (bbox_intersection [[0, 0, 1, 1], [3, 0, 2, 1]])"
    using bbox_intersection_result [of "[[0, 0, 1, 1], [3, 0, 2, 1]]"] by simp
  have 3: "bbox_intersection [[-200, 0, 10, 10], [-190, 5, 15, 15]] = Inr (Some [-180, 5, 10, 10])"
    using bbox_intersection_result [of "[[-200, 0, 10, 10], [-190, 5, 15, 15]]"] by simp
  from 1 2 3 show ?thesis by blast
qed

section \<open>Points between two points (C9, C7)\<close>

text \<open>
  C9: for a segment of length zero and a positive \<open>delta\<close> the function returns the one
  point it was given. No interior point is computed, so the unit vector, which is not a
  number when the length is zero, is never used.
\<close>

theorem zero_length_segment:
  assumes "0 < delta"
  shows "points_between_points p p delta = Inr [Some p]"
  using assms by (cases p) (simp add: points_between_points_def py_int_def)

theorem zero_length_segment_witness:
  "(0::real) < 3 \<and> points_between_points (1, 2) (1, 2) 3 = Inr [Some (1, 2)]"
  using zero_length_segment [of 3 "(1, 2)"] by simp



end
